theory Spec2Isabelle
  imports
    Main
    "HOL-Library.Word"
    "HOL-Library.Sublist"
    "HOL-Library.Char_ord"
    "HOL-Library.List_Lexorder"
begin

section \<open>The Tor port prober: \<open>TorDetector\<close>\<close>

subsection \<open>Sockets as an explicit world\<close>

text \<open>
  \<open>TorDetector.is_tor_port\<close> talks to the operating system through the \<open>socket\<close>
  module. The model makes that world explicit. A port is a TCP port number, a 16-bit
  quantity. Every socket operation either succeeds or raises \<open>socket.error\<close>
  (\<open>OSError\<close>; a connect or receive that outlives the 0.1 s timeout set by
  \<open>settimeout(0.1)\<close> raises its subclass \<open>socket.timeout\<close>). The answers of the world
  may change from one probe to the next, so they are indexed by the number of the probe
  (the \<open>nat\<close> argument); the reply received depends on the request that was sent and on
  the buffer size asked for.
\<close>

type_synonym port = "16 word"
type_synonym bytes = "char list"

datatype socket_error = ConnectionRefused | TimedOut | OtherOSError

record socket_world =
  sw_socket :: "nat \<Rightarrow> socket_error + unit"
  sw_connect :: "nat \<Rightarrow> string \<times> port \<Rightarrow> socket_error + unit"
  sw_send :: "nat \<Rightarrow> string \<times> port \<Rightarrow> bytes \<Rightarrow> socket_error + nat"
  sw_recv :: "nat \<Rightarrow> string \<times> port \<Rightarrow> bytes \<Rightarrow> nat \<Rightarrow> socket_error + bytes"

text \<open>The request \<open>b"GET\n"\<close> and the reply fragment \<open>b"Tor is not an HTTP Proxy"\<close>.\<close>

definition GET_request :: bytes where
  "GET_request = [CHR ''G'', CHR ''E'', CHR ''T'', CHR 0x0A]"

definition tor_rejection :: bytes where
  "tor_rejection = ''Tor is not an HTTP Proxy''"

text \<open>Python's \<open>needle in haystack\<close> on \<open>bytes\<close>: a contiguous occurrence.\<close>

fun bytes_in :: "bytes \<Rightarrow> bytes \<Rightarrow> bool" where
  "bytes_in needle [] = (needle = [])"
| "bytes_in needle (b # bs) = (prefix needle (b # bs) \<or> bytes_in needle bs)"

subsection \<open>\<open>is_tor_port\<close>\<close>

text \<open>
  The body of the \<open>try\<close> block: create the socket, connect to \<open>("127.0.0.1", port)\<close>,
  send the request, receive at most 1024 bytes once, and test the reply. \<open>Inl\<close> is a
  raised \<open>socket.error\<close>; \<open>Inr True\<close> is the \<open>return True\<close> inside the block and
  \<open>Inr False\<close> is falling out of the block.
\<close>

definition is_tor_port_try :: "socket_world \<Rightarrow> nat \<Rightarrow> port \<Rightarrow> socket_error + bool" where
  "is_tor_port_try w n port =
     (case sw_socket w n of
        Inl e \<Rightarrow> Inl e
      | Inr _ \<Rightarrow>
          (case sw_connect w n (''127.0.0.1'', port) of
             Inl e \<Rightarrow> Inl e
           | Inr _ \<Rightarrow>
               (case sw_send w n (''127.0.0.1'', port) GET_request of
                  Inl e \<Rightarrow> Inl e
                | Inr _ \<Rightarrow>
                    (case sw_recv w n (''127.0.0.1'', port) GET_request 1024 of
                       Inl e \<Rightarrow> Inl e
                     | Inr reply \<Rightarrow> Inr (bytes_in tor_rejection reply)))))"

text \<open>
  The whole function, with what escapes it made explicit: \<open>Inl e\<close> would be an exception
  leaving \<open>is_tor_port\<close>, \<open>Inr b\<close> is the value returned. The handler
  \<open>except socket.error: pass\<close> catches every \<open>socket_error\<close> and execution continues
  at \<open>return False\<close>.
\<close>

definition is_tor_port_outcome :: "socket_world \<Rightarrow> nat \<Rightarrow> port \<Rightarrow> socket_error + bool" where
  "is_tor_port_outcome w n port =
     (case is_tor_port_try w n port of
        Inr True \<Rightarrow> Inr True
      | Inr False \<Rightarrow> Inr False
      | Inl _ \<Rightarrow> Inr False)"

definition is_tor_port :: "socket_world \<Rightarrow> nat \<Rightarrow> port \<Rightarrow> bool" where
  "is_tor_port w n port = (case is_tor_port_outcome w n port of Inr b \<Rightarrow> b | Inl _ \<Rightarrow> False)"

subsection \<open>One pass of \<open>run\<close> over the candidate ports\<close>

text \<open>
  The collaborators read by \<open>run\<close>: \<open>self.network.tor_controller\<close> may be absent
  (falsy), and its \<open>active_socks_port\<close> may be \<open>None\<close> or \<open>0\<close>, both falsy.
\<close>

record tor_controller =
  is_enabled :: bool
  active_socks_port :: "port option"

record network =
  net_tor_controller :: "tor_controller option"

definition truthy_port :: "port option \<Rightarrow> bool" where
  "truthy_port p = (case p of None \<Rightarrow> False | Some v \<Rightarrow> v \<noteq> 0)"

text \<open>\<open>ports = [9050, 9150]\<close>, then \<open>ports.insert(0, active_socks_port)\<close> under the guard.\<close>

definition candidate_ports :: "network \<Rightarrow> port list" where
  "candidate_ports net =
     (let ports = [9050, 9150] in
      case net_tor_controller net of
        None \<Rightarrow> ports
      | Some c \<Rightarrow>
          if is_enabled c \<and> truthy_port (active_socks_port c)
          then the (active_socks_port c) # ports
          else ports)"

text \<open>
  What \<open>found_proxy\<close> carries: \<open>("127.0.0.1", p)\<close> or \<open>None\<close>. The \<open>for ... else\<close>
  loop returns the number of the next probe and the signals it emitted.
\<close>

type_synonym found_proxy = "(string \<times> port) option"

fun probe_ports :: "socket_world \<Rightarrow> nat \<Rightarrow> port list \<Rightarrow> nat \<times> found_proxy list" where
  "probe_ports w n [] = (n, [None])"
| "probe_ports w n (p # ps) =
     (if is_tor_port w n p then (Suc n, [Some (''127.0.0.1'', p)])
      else probe_ports w (Suc n) ps)"

definition probe_pass :: "socket_world \<Rightarrow> nat \<Rightarrow> network \<Rightarrow> nat \<times> found_proxy list" where
  "probe_pass w n net = probe_ports w n (candidate_ports net)"

subsection \<open>Sample worlds\<close>

text \<open>
  A machine on which something that answers like Tor listens on port 9150 and nothing
  listens elsewhere, and a network whose enabled Tor controller reports port 9999.
\<close>

definition tor_world :: socket_world where
  "tor_world =
     \<lparr> sw_socket = (\<lambda>n. Inr ()),
       sw_connect = (\<lambda>n a. if snd a = 9150 then Inr () else Inl ConnectionRefused),
       sw_send = (\<lambda>n a d. Inr (length d)),
       sw_recv = (\<lambda>n a d k.
          if d = GET_request then Inr (take k ''HTTP/1.0 501 Tor is not an HTTP Proxy'')
          else Inr []) \<rparr>"

definition tor_network :: network where
  "tor_network =
     \<lparr> net_tor_controller = Some \<lparr> is_enabled = True, active_socks_port = Some 9999 \<rparr> \<rparr>"

section \<open>The dialog shell: \<open>NetworkDialog.closeEvent\<close>\<close>

subsection \<open>Strings and configuration\<close>

text \<open>
  \<open>str.lower\<close> and \<open>str.endswith\<close>. A string is the list of the bytes of its UTF-8
  encoding, and lowering maps \<open>A\<close>..\<open>Z\<close> to \<open>a\<close>..\<open>z\<close>. No character outside
  ASCII lowers to a character of \<open>.onion\<close> alone, so the suffix tests below agree with
  Python's on every string.
\<close>

definition lower_char :: "char \<Rightarrow> char" where
  "lower_char c =
     (case map_of (zip ''ABCDEFGHIJKLMNOPQRSTUVWXYZ'' ''abcdefghijklmnopqrstuvwxyz'') c of
        Some l \<Rightarrow> l
      | None \<Rightarrow> c)"

definition str_lower :: "string \<Rightarrow> string" where
  "str_lower s = map lower_char s"

definition endswith :: "string \<Rightarrow> string \<Rightarrow> bool" where
  "endswith s suf = suffix suf s"

text \<open>Python values as far as they are stored and tested for truth by \<open>if\<close> and \<open>not\<close>.\<close>

datatype py_value = PyNone | PyBool bool | PyInt int | PyStr string

fun truthy :: "py_value \<Rightarrow> bool" where
  "truthy PyNone = False"
| "truthy (PyBool b) = b"
| "truthy (PyInt i) = (i \<noteq> 0)"
| "truthy (PyStr s) = (s \<noteq> [])"

type_synonym config = "string \<rightharpoonup> py_value"

text \<open>
  Modelled from the spec: \<open>get\<close> and \<open>set_key\<close> of the \<open>config\<close> collaborator
  (\<open>SimpleConfig\<close>, whose source is not part of this module), "generic key/value
  persisted settings": \<open>get\<close> returns the stored value or the default, \<open>set_key\<close>
  stores a value. The modifiability check that the spec mentions is a query of its own
  (\<open>is_modifiable\<close>), which \<open>closeEvent\<close> does not make.
\<close>

definition config_get :: "config \<Rightarrow> string \<Rightarrow> py_value \<Rightarrow> py_value" where
  "config_get c k d = (case c k of None \<Rightarrow> d | Some v \<Rightarrow> v)"

definition config_set_key :: "config \<Rightarrow> string \<Rightarrow> py_value \<Rightarrow> config" where
  "config_set_key c k v = c(k \<mapsto> v)"

subsection \<open>\<open>closeEvent\<close>\<close>

text \<open>
  What \<open>closeEvent\<close> reads of the dialog: the SSL and Tor check boxes, the text of the
  server host field and the configuration. The answer of the modal question box is the
  pair \<open>(ok, chk)\<close> that \<open>self.question(..., checkbox_text=...)\<close> returns. The result
  records how many question boxes were shown, whether the event was ignored
  (\<open>e.ignore(); return\<close>) or handed to \<open>super().closeEvent(e)\<close>, and the dialog after
  the call.
\<close>

record network_dialog =
  ssl_cb :: bool
  tor_cb :: bool
  server_host :: string
  nd_config :: config

datatype close_event = Ignored | To_super

record close_result =
  cr_questions :: nat
  cr_event :: close_event
  cr_dialog :: network_dialog

definition closeEvent :: "bool \<times> bool \<Rightarrow> network_dialog \<Rightarrow> close_result" where
  "closeEvent answer d =
     (if \<not> ssl_cb d \<and> \<not> tor_cb d
         \<and> \<not> endswith (str_lower (server_host d)) ''.onion''
         \<and> \<not> truthy (config_get (nd_config d) ''non_ssl_noprompt'' (PyBool False))
      then
        (let (ok, chk) = answer;
             d1 = (if chk
                   then d\<lparr> nd_config := config_set_key (nd_config d) ''non_ssl_noprompt'' (PyBool True) \<rparr>
                   else d)
         in if \<not> ok
            then \<lparr> cr_questions = 1, cr_event = Ignored, cr_dialog = d1 \<rparr>
            else \<lparr> cr_questions = 1, cr_event = To_super, cr_dialog = d1 \<rparr>)
      else \<lparr> cr_questions = 0, cr_event = To_super, cr_dialog = d \<rparr>)"

text \<open>A dialog set to plain TCP on a clearnet server, with an empty configuration.\<close>

definition plain_dialog :: network_dialog where
  "plain_dialog = \<lparr> ssl_cb = False, tor_cb = False, server_host = ''node.example'',
                    nd_config = Map.empty \<rparr>"

section \<open>The validation-method panel of \<open>NetworkChoiceLayout\<close>\<close>

text \<open>
  The part of \<open>NetworkChoiceLayout\<close> that the validation handlers touch: the two check
  boxes, the text of the SLPDB endpoint field, and whether the graph-search widgets and
  the SLPDB widgets are shown (\<open>hide_gs_widgets\<close>, \<open>show_gs_widgets\<close>,
  \<open>hide_slpdb_widgets\<close> and \<open>show_slpdb_widgets\<close> each hide or show their seven widgets
  together). What the handlers do to their collaborators is kept as a trace, in program
  order: the calls on \<open>slp_gs_mgr\<close>, the modal message boxes executed (icon and window
  title), the refreshes of the two endpoint lists and of the slider's maximum.
  \<open>setChecked\<close> does not emit \<open>clicked\<close>, so it triggers no handler.
\<close>

datatype box_icon = Information | Critical

datatype std_button = Ok | Cancel

datatype panel_event =
    Toggle_graph_search bool
  | Toggle_slpdb_validation bool
  | Update_slpdb_host string bool bool
  | Msg_box box_icon string
  | Gs_list_update
  | Slpdb_list_update
  | Slider_set_maximum

record val_panel =
  slp_gs_enable_cb :: bool
  slp_slpdb_enable_cb :: bool
  slp_slpdb_server_host :: string
  gs_widgets_visible :: bool
  slpdb_widgets_visible :: bool
  panel_events :: "panel_event list"

definition emit :: "panel_event \<Rightarrow> val_panel \<Rightarrow> val_panel" where
  "emit e p = p\<lparr> panel_events := panel_events p @ [e] \<rparr>"

definition hide_gs_widgets :: "val_panel \<Rightarrow> val_panel" where
  "hide_gs_widgets p = p\<lparr> gs_widgets_visible := False \<rparr>"

definition show_gs_widgets :: "val_panel \<Rightarrow> val_panel" where
  "show_gs_widgets p = p\<lparr> gs_widgets_visible := True \<rparr>"

definition hide_slpdb_widgets :: "val_panel \<Rightarrow> val_panel" where
  "hide_slpdb_widgets p = p\<lparr> slpdb_widgets_visible := False \<rparr>"

definition show_slpdb_widgets :: "val_panel \<Rightarrow> val_panel" where
  "show_slpdb_widgets p = p\<lparr> slpdb_widgets_visible := True \<rparr>"

text \<open>
  The handlers. \<open>slpdb_msg_box\<close> takes the button that closes its modal box
  (\<open>Ok\<close> or \<open>Cancel\<close>) and is the only caller of \<open>use_slp_slpdb\<close>;
  \<open>gs_and_slpdb_checked_msg_box\<close> takes the integer that \<open>msg.exec()\<close> returns,
  which for its three buttons is 0, 1 or 2.
\<close>

definition use_slp_gs :: "val_panel \<Rightarrow> val_panel" where
  "use_slp_gs p =
     (let p1 = emit (Toggle_graph_search (slp_gs_enable_cb p)) p;
          p2 = p1\<lparr> slp_slpdb_enable_cb := False \<rparr>;
          p3 = emit Gs_list_update p2
      in if slp_gs_enable_cb p3 then show_gs_widgets (hide_slpdb_widgets p3)
         else hide_gs_widgets p3)"

definition use_slp_slpdb :: "val_panel \<Rightarrow> val_panel" where
  "use_slp_slpdb p =
     (let p1 = emit (Toggle_slpdb_validation (slp_slpdb_enable_cb p)) p;
          p2 = emit Slpdb_list_update p1
      in show_slpdb_widgets (hide_gs_widgets p2))"

definition slpdb_msg_box :: "std_button \<Rightarrow> val_panel \<Rightarrow> val_panel" where
  "slpdb_msg_box return_value p =
     (if slp_slpdb_enable_cb p then
        (let p1 = emit (Msg_box Information ''SLPDB Validation'') p
         in if return_value = Ok then use_slp_slpdb (p1\<lparr> slp_gs_enable_cb := False \<rparr>)
            else p1\<lparr> slp_slpdb_enable_cb := False \<rparr>)
      else emit (Toggle_slpdb_validation False) (hide_slpdb_widgets p))"

definition gs_and_slpdb_checked_msg_box :: "int \<Rightarrow> val_panel \<Rightarrow> val_panel" where
  "gs_and_slpdb_checked_msg_box ret p =
     (let p1 = emit (Msg_box Information ''Pick one validation method'') p
      in if ret = 0 then (emit (Toggle_graph_search True) p1)\<lparr> slp_slpdb_enable_cb := False \<rparr>
         else if ret = 1 then
           (emit (Toggle_slpdb_validation True) (emit (Toggle_graph_search False) p1))
             \<lparr> slp_gs_enable_cb := False, slp_slpdb_enable_cb := True \<rparr>
         else if ret = 2 then
           (emit (Toggle_graph_search False) p1)
             \<lparr> slp_gs_enable_cb := False, slp_slpdb_enable_cb := False \<rparr>
         else p1)"

text \<open>
  \<open>slpdb_is_checked\<close> runs once, when the panel is built, before any click. It is not
  one of the click handlers; it calls the chooser when the configuration enables both
  methods and then checks the SLPDB box whatever the chooser did.
\<close>

definition slpdb_is_checked :: "config \<Rightarrow> int \<Rightarrow> val_panel \<Rightarrow> val_panel" where
  "slpdb_is_checked conf ret p =
     (if truthy (config_get conf ''slp_validator_slpdb_validation_enabled'' (PyBool False)) then
        (let p1 = (if truthy (config_get conf ''slp_validator_graphsearch_enabled'' (PyBool False))
                   then gs_and_slpdb_checked_msg_box ret p else p)
         in p1\<lparr> slp_slpdb_enable_cb := True \<rparr>)
      else p\<lparr> slp_slpdb_enable_cb := False \<rparr>)"

subsection \<open>Adding an SLPDB endpoint\<close>

text \<open>
  \<open>urllib.parse.urlparse\<close> belongs to the Python library, so it is a parameter: it
  raises \<open>ValueError\<close> or returns a result of which \<open>is_url\<close> reads the scheme and
  the network location. \<open>is_url\<close> is \<open>all([result.scheme, result.netloc])\<close>, with
  \<open>ValueError\<close> caught and turned into \<open>False\<close>.
\<close>

record parse_result =
  pr_scheme :: string
  pr_netloc :: string

datatype value_error = ValueError

type_synonym urlparse = "string \<Rightarrow> value_error + parse_result"

definition is_url :: "urlparse \<Rightarrow> string \<Rightarrow> bool" where
  "is_url urlparse url =
     (case urlparse url of
        Inr result \<Rightarrow> list_all (\<lambda>s. s \<noteq> []) [pr_scheme result, pr_netloc result]
      | Inl ValueError \<Rightarrow> False)"

text \<open>
  \<open>NetworkChoiceLayout.update_slp_slpdb_server\<close> returns at once on an empty server;
  otherwise it asks \<open>slp_gs_mgr\<close> to update its host list, resets the slider's maximum
  and refreshes the SLPDB list. \<open>slpdb_endpoint_msg_box\<close> takes the button that closes
  its modal box.
\<close>

definition update_slp_slpdb_server :: "string \<Rightarrow> bool \<Rightarrow> bool \<Rightarrow> val_panel \<Rightarrow> val_panel" where
  "update_slp_slpdb_server server add remove p =
     (if server = [] then p
      else emit Slpdb_list_update
             (emit Slider_set_maximum (emit (Update_slpdb_host server add remove) p)))"

definition slpdb_endpoint_msg_box :: "urlparse \<Rightarrow> std_button \<Rightarrow> val_panel \<Rightarrow> val_panel" where
  "slpdb_endpoint_msg_box urlparse return_value p =
     (if is_url urlparse (slp_slpdb_server_host p) then
        (let p1 = emit (Msg_box Information ''Add SLPDB Endpoint'') p
         in if return_value = Ok
            then update_slp_slpdb_server (slp_slpdb_server_host p1) True False p1
            else p1)
      else emit (Msg_box Critical ''Error'') p)"

subsection \<open>Sample panel and parser\<close>

text \<open>
  A panel in which both boxes are checked, and a parser that knows one well-formed URL,
  raises on one input and finds neither scheme nor host in any other string.
\<close>

definition both_checked_panel :: val_panel where
  "both_checked_panel =
     \<lparr> slp_gs_enable_cb = True, slp_slpdb_enable_cb = True, slp_slpdb_server_host = ''nohost'',
       gs_widgets_visible = True, slpdb_widgets_visible = True, panel_events = [] \<rparr>"

definition sample_urlparse :: urlparse where
  "sample_urlparse url =
     (if url = ''https://slpdb.example'' then Inr \<lparr> pr_scheme = ''https'', pr_netloc = ''slpdb.example'' \<rparr>
      else if url = ''http://[bad'' then Inl ValueError
      else Inr \<lparr> pr_scheme = [], pr_netloc = [] \<rparr>)"

unbundle bit_operations_syntax

section \<open>The list renderers\<close>

subsection \<open>Tree widgets\<close>

text \<open>
  A \<open>QTreeWidget\<close> as the renderers use it: its rows in display order, the current item
  (an index into the rows, since the widget keeps no item across a \<open>clear()\<close>), the
  indentation, the auto-scroll flag and the header's sizing policy. A row carries its
  column texts, the values stored with \<open>setData(column, Qt.UserRole, value)\<close>, its
  icons, the tool tip of column 0, whether its text was lightened, and its depth in the
  tree (0 for a top-level item, 1 for a child).
\<close>

datatype resize_mode = Stretch | ResizeToContents

record row =
  row_texts :: "string list"
  row_data :: "(nat \<times> py_value) list"
  row_icons :: "(nat \<times> string) list"
  row_tooltip :: string
  row_lightened :: bool
  row_level :: nat

record tree_widget =
  tw_rows :: "row list"
  tw_current :: "nat option"
  tw_indentation :: nat
  tw_auto_scroll :: bool
  tw_stretch_last_section :: bool
  tw_section_resize_mode :: "nat \<rightharpoonup> resize_mode"

definition item_data :: "row \<Rightarrow> nat \<Rightarrow> py_value option" where
  "item_data x column = map_of (row_data x) column"

definition currentItem :: "tree_widget \<Rightarrow> row option" where
  "currentItem w =
     (case tw_current w of
        None \<Rightarrow> None
      | Some i \<Rightarrow> if i < length (tw_rows w) then Some (tw_rows w ! i) else None)"

definition clear :: "tree_widget \<Rightarrow> tree_widget" where
  "clear w = w\<lparr> tw_rows := [], tw_current := None \<rparr>"

definition addTopLevelItem :: "row \<Rightarrow> tree_widget \<Rightarrow> tree_widget" where
  "addTopLevelItem x w = w\<lparr> tw_rows := tw_rows w @ [x] \<rparr>"

definition setSectionResizeMode :: "nat \<Rightarrow> resize_mode \<Rightarrow> tree_widget \<Rightarrow> tree_widget" where
  "setSectionResizeMode i m w = w\<lparr> tw_section_resize_mode := (tw_section_resize_mode w)(i \<mapsto> m) \<rparr>"

definition restore_selection :: "nat option \<Rightarrow> tree_widget \<Rightarrow> tree_widget" where
  "restore_selection restore_sel w =
     (case restore_sel of
        None \<Rightarrow> w
      | Some i \<Rightarrow>
          (let val = tw_auto_scroll w;
               w1 = w\<lparr> tw_auto_scroll := False \<rparr>;
               w2 = w1\<lparr> tw_current := Some i \<rparr>
           in w2\<lparr> tw_auto_scroll := val \<rparr>))"

subsection \<open>\<open>ServerListWidget.update\<close>\<close>

text \<open>
  Modelled from the spec: \<open>serialize_server\<close> of the \<open>network\<close> module, which is not
  part of this file; a server descriptor is a "(host, port, protocol) triple, serialized
  as a string key", the three parts joined by colons.
\<close>

definition serialize_server :: "string \<Rightarrow> string \<Rightarrow> string \<Rightarrow> string" where
  "serialize_server host port protocol = host @ '':'' @ port @ '':'' @ protocol"

text \<open>
  What \<open>update\<close> asks of the \<open>network\<close> collaborator, the flag constants of
  \<open>ServerFlag\<close> and its \<open>Symbol\<close> table (the symbols are the UTF-8 bytes of a star, a
  no-entry sign and an exclamation mark). The dictionary of a server maps \<open>'t'\<close>,
  \<open>'s'\<close>, \<open>'display'\<close> and other keys to strings. Tool tips are the untranslated
  messages.
\<close>

record server_network =
  is_whitelist_only :: bool
  server_is_blacklisted :: "string \<Rightarrow> bool"
  server_is_whitelisted :: "string \<Rightarrow> bool"
  server_is_bad_certificate :: "string \<Rightarrow> bool"

definition BadCertificate :: nat where "BadCertificate = 4"
definition Banned :: nat where "Banned = 2"
definition Preferred :: nat where "Preferred = 1"
definition NoFlag :: nat where "NoFlag = 0"

definition Symbol :: "nat \<Rightarrow> string" where
  "Symbol f =
     (if f = NoFlag then []
      else if f = Preferred then [CHR 0xE2, CHR 0xAD, CHR 0x90]
      else if f = Banned then [CHR 0xE2, CHR 0x9B, CHR 0x94]
      else [CHR 0xE2, CHR 0x9D, CHR 0x97, CHR 0xEF, CHR 0xB8, CHR 0x8F])"

type_synonym server_dict = "string \<rightharpoonup> string"

text \<open>
  The body of the loop over \<open>sorted(servers.items())\<close>: an onion host is skipped unless
  \<open>use_tor\<close>, an entry without a port for the protocol is skipped, and every other
  entry becomes a row; the row whose key equals \<open>sel\<close> is remembered in
  \<open>restore_sel\<close>.
\<close>

definition server_flagval :: "server_network \<Rightarrow> string \<Rightarrow> nat" where
  "server_flagval network server =
     (let flagval = 0;
          flagval = (if server_is_blacklisted network server then flagval OR Banned else flagval);
          flagval = (if server_is_whitelisted network server then flagval OR Preferred else flagval);
          flagval = (if server_is_bad_certificate network server then flagval OR BadCertificate
                     else flagval)
      in flagval)"

definition server_item ::
  "server_network \<Rightarrow> bool \<Rightarrow> string \<Rightarrow> string \<Rightarrow> server_dict \<Rightarrow> string \<Rightarrow> row" where
  "server_item network wl_only protocol host d port =
     (let is_onion = endswith (str_lower host) ''.onion'';
          server = serialize_server host port protocol;
          flagval = server_flagval network server;
          (flag, tt) =
            (if flagval AND Banned \<noteq> 0 then (Symbol Banned, ''This server is banned'')
             else if flagval AND BadCertificate \<noteq> 0 then
               (Symbol BadCertificate,
                ''This server's pinned certificate mismatches its current certificate'')
             else if flagval AND Preferred \<noteq> 0 then
               (Symbol Preferred, ''This is a preferred server'')
             else ([], []));
          display_text =
            (case d ''display'' of
               Some disp \<Rightarrow> if is_onion then disp @ '' (.onion)'' else host
             | None \<Rightarrow> host)
      in \<lparr> row_texts = [flag, display_text, [], port],
           row_data = [(2, PyStr server), (0, PyInt (int flagval))],
           row_icons = (if is_onion then [(2, '':icons/tor_logo.svg'')] else []),
           row_tooltip = tt,
           row_lightened =
             ((wl_only \<and> \<not> flagval AND Preferred \<noteq> 0) \<or> flagval AND Banned \<noteq> 0),
           row_level = 0 \<rparr>)"

definition server_loop_body ::
  "server_network \<Rightarrow> bool \<Rightarrow> string \<Rightarrow> bool \<Rightarrow> py_value option
   \<Rightarrow> string \<times> server_dict \<Rightarrow> tree_widget \<times> nat option \<Rightarrow> tree_widget \<times> nat option" where
  "server_loop_body network wl_only protocol use_tor sel entry acc =
     (let (host, d) = entry;
          (w, restore_sel) = acc;
          is_onion = endswith (str_lower host) ''.onion''
      in if is_onion \<and> \<not> use_tor then (w, restore_sel)
         else
           (case d protocol of
              None \<Rightarrow> (w, restore_sel)
            | Some port \<Rightarrow>
                if port = [] then (w, restore_sel)
                else
                  (let server = serialize_server host port protocol;
                       x = server_item network wl_only protocol host d port;
                       w1 = addTopLevelItem x w
                   in (w1, if Some (PyStr server) = sel then Some (length (tw_rows w))
                           else restore_sel))))"

definition ServerListWidget_update ::
  "server_network \<Rightarrow> (string \<times> server_dict) list \<Rightarrow> string \<Rightarrow> bool \<Rightarrow> tree_widget \<Rightarrow> tree_widget" where
  "ServerListWidget_update network servers protocol use_tor w =
     (let sel = (case currentItem w of None \<Rightarrow> None | Some sel_item \<Rightarrow> item_data sel_item 2);
          w1 = clear w;
          w2 = w1\<lparr> tw_indentation := 0 \<rparr>;
          wl_only = is_whitelist_only network;
          (w3, restore_sel) =
             fold (server_loop_body network wl_only protocol use_tor sel)
               (sort_key fst servers) (w2, None);
          w4 = w3\<lparr> tw_stretch_last_section := False \<rparr>;
          w5 = setSectionResizeMode 0 ResizeToContents w4;
          w6 = setSectionResizeMode 1 Stretch w5;
          w7 = setSectionResizeMode 2 ResizeToContents w6;
          w8 = setSectionResizeMode 3 ResizeToContents w7
      in restore_selection restore_sel w8)"

text \<open>A fresh widget, a network that prefers one server, and two servers, one of them onion.\<close>

definition empty_widget :: tree_widget where
  "empty_widget = \<lparr> tw_rows = [], tw_current = None, tw_indentation = 20, tw_auto_scroll = True,
     tw_stretch_last_section = True, tw_section_resize_mode = Map.empty \<rparr>"

definition open_network :: server_network where
  "open_network = \<lparr> is_whitelist_only = False, server_is_blacklisted = (\<lambda>s. False),
     server_is_whitelisted = (\<lambda>s. s = ''b.org:50002:s''), server_is_bad_certificate = (\<lambda>s. False) \<rparr>"

definition two_servers :: "(string \<times> server_dict) list" where
  "two_servers = [(''x.onion'', [''s'' \<mapsto> ''50002'', ''display'' \<mapsto> ''X'']),
                  (''b.org'', [''s'' \<mapsto> ''50002'', ''t'' \<mapsto> ''50001''])]"

subsection \<open>Decimal numerals\<close>

text \<open>\<open>str(n)\<close> and \<open>'%d' % n\<close> for an integer \<open>n\<close>.\<close>

function str_nat :: "nat \<Rightarrow> string" where
  "str_nat n =
     (if n < 10 then [''0123456789'' ! n]
      else str_nat (n div 10) @ [''0123456789'' ! (n mod 10)])"
  by pat_completeness auto
termination
  by (relation "measure id") auto

definition str_int :: "int \<Rightarrow> string" where
  "str_int i = (if i < 0 then CHR ''-'' # str_nat (nat (- i)) else str_nat (nat i))"

subsection \<open>\<open>PostOfficeServeListWidget.update\<close>, \<open>SlpSLPDBServeListWidget.update\<close>,
  \<open>SlpGsServeListWidget.update\<close>\<close>

text \<open>
  The three endpoint lists show one column. The postage list iterates over
  \<open>networks.net.POST_OFFICE_SERVERS\<close>, the SLPDB list over \<open>slp_gs_mgr.slpdb_host\<close>,
  and the graph-search list over the items of \<open>networks.net.SLP_GS_SERVERS\<close>, marking
  the host in use with an arrow (\<open>star\<close>, a space and the UTF-8 bytes of the arrow). Each
  loop body is guarded by a test that the list is not empty.
\<close>

definition plain_item :: "string \<Rightarrow> string \<Rightarrow> row" where
  "plain_item text key =
     \<lparr> row_texts = [text], row_data = [(0, PyStr key)], row_icons = [], row_tooltip = [],
       row_lightened = False, row_level = 0 \<rparr>"

definition post_office_loop_body ::
  "nat \<Rightarrow> py_value option \<Rightarrow> string \<Rightarrow> tree_widget \<times> nat option \<Rightarrow> tree_widget \<times> nat option" where
  "post_office_loop_body post_office_count sel server acc =
     (let (w, restore_sel) = acc
      in if post_office_count > 0 then
           (let x = plain_item server server;
                w1 = addTopLevelItem x w
            in (w1, if Some (PyStr server) = sel then Some (length (tw_rows w)) else restore_sel))
         else (w, restore_sel))"

definition PostOfficeServeListWidget_update :: "string list \<Rightarrow> tree_widget \<Rightarrow> tree_widget" where
  "PostOfficeServeListWidget_update post_office_list w =
     (let sel = (case currentItem w of None \<Rightarrow> None | Some sel_item \<Rightarrow> item_data sel_item 0);
          w1 = clear w;
          post_office_count = length post_office_list;
          (w2, restore_sel) =
             fold (post_office_loop_body post_office_count sel) post_office_list (w1, None);
          w3 = w2\<lparr> tw_stretch_last_section := False \<rparr>;
          w4 = setSectionResizeMode 0 Stretch w3
      in restore_selection restore_sel w4)"

definition slpdb_loop_body :: "nat \<Rightarrow> string \<Rightarrow> tree_widget \<Rightarrow> tree_widget" where
  "slpdb_loop_body slp_slpdb_count k w =
     (if slp_slpdb_count > 0 then addTopLevelItem (plain_item k k) w else w)"

definition SlpSLPDBServeListWidget_update :: "string list \<Rightarrow> tree_widget \<Rightarrow> tree_widget" where
  "SlpSLPDBServeListWidget_update slp_slpdb_list w =
     (let w1 = clear w;
          slp_slpdb_count = length slp_slpdb_list;
          w2 = fold (slpdb_loop_body slp_slpdb_count) slp_slpdb_list w1;
          w3 = w2\<lparr> tw_stretch_last_section := False \<rparr>
      in setSectionResizeMode 0 Stretch w3)"

definition star :: string where
  "star = [CHR 0x20, CHR 0xE2, CHR 0x97, CHR 0x80]"

definition gs_loop_body ::
  "nat \<Rightarrow> string \<Rightarrow> py_value option \<Rightarrow> string \<times> 'v
   \<Rightarrow> tree_widget \<times> nat option \<Rightarrow> tree_widget \<times> nat option" where
  "gs_loop_body slp_gs_count gs_host sel entry acc =
     (let (node_url, item) = entry;
          (w, restore_sel) = acc
      in if slp_gs_count > 0 then
           (let x = plain_item (node_url @ (if node_url = gs_host then star else [])) node_url;
                w1 = addTopLevelItem x w
            in (w1, if Some (PyStr node_url) = sel then Some (length (tw_rows w)) else restore_sel))
         else (w, restore_sel))"

definition SlpGsServeListWidget_update ::
  "(string \<times> 'v) list \<Rightarrow> string \<Rightarrow> tree_widget \<Rightarrow> tree_widget" where
  "SlpGsServeListWidget_update slp_gs_list gs_host w =
     (let sel = (case currentItem w of None \<Rightarrow> None | Some sel_item \<Rightarrow> item_data sel_item 0);
          w1 = clear w;
          slp_gs_count = length slp_gs_list;
          (w2, restore_sel) = fold (gs_loop_body slp_gs_count gs_host sel) slp_gs_list (w1, None);
          w3 = w2\<lparr> tw_stretch_last_section := False \<rparr>;
          w4 = setSectionResizeMode 0 Stretch w3
      in restore_selection restore_sel w4)"

subsection \<open>\<open>NodesListWidget.update\<close>\<close>

text \<open>
  The snapshot read from \<open>network\<close>: \<open>get_blockchains()\<close> maps a chain key to the
  interfaces on that chain, \<open>blockchains[k]\<close> is the chain (a missing key raises
  \<open>KeyError\<close>), and \<open>network.interface\<close> is the interface in use; interfaces are
  compared by identity, here \<open>if_id\<close>. \<open>get_base_height()\<close> returns \<open>base_height\<close>.
  The tree is kept flattened: with more than one chain, a chain row at depth 0 is
  followed by its interfaces at depth 1; with one chain the interfaces are the top-level
  rows. Only interface rows are compared with the selection.
\<close>

record interface =
  if_id :: nat
  if_host :: string
  if_server :: string
  if_tip :: int

record blockchain =
  bc_name :: string
  bc_base_height :: int
  bc_height :: int

record nodes_network =
  get_blockchains :: "(int \<times> interface list) list"
  blockchains :: "int \<rightharpoonup> blockchain"
  nn_interface :: "nat option"

datatype key_error = KeyError

definition chain_item :: "blockchain \<Rightarrow> row" where
  "chain_item b =
     \<lparr> row_texts = [bc_name b @ ''@'' @ str_int (bc_base_height b), [], str_int (bc_height b)],
       row_data = [(0, PyInt 1), (1, PyInt (bc_base_height b))],
       row_icons = [], row_tooltip = [], row_lightened = False, row_level = 0 \<rparr>"

definition node_item ::
  "nodes_network \<Rightarrow> (string \<times> server_dict) list \<Rightarrow> nat \<Rightarrow> interface \<Rightarrow> row" where
  "node_item network servers level i =
     (let star_text = (if Some (if_id i) = nn_interface network then star else []);
          is_onion = endswith (str_lower (if_host i)) ''.onion'';
          display_text =
            (case map_of servers (if_host i) of
               None \<Rightarrow> if_host i
             | Some d \<Rightarrow>
                 (case d ''display'' of
                    None \<Rightarrow> if_host i
                  | Some disp \<Rightarrow> if is_onion then disp @ '' (.onion)'' else if_host i))
      in \<lparr> row_texts = [display_text @ star_text, [], str_int (if_tip i)],
           row_data = [(0, PyInt 0), (1, PyStr (if_server i))],
           row_icons = (if is_onion then [(1, '':icons/tor_logo.svg'')] else []),
           row_tooltip = [], row_lightened = False, row_level = level \<rparr>)"

definition nodes_inner_body ::
  "nodes_network \<Rightarrow> (string \<times> server_dict) list \<Rightarrow> nat \<Rightarrow> py_value option \<Rightarrow> interface
   \<Rightarrow> tree_widget \<times> nat option \<Rightarrow> tree_widget \<times> nat option" where
  "nodes_inner_body network servers level sel i acc =
     (let (w, restore_sel) = acc;
          item = node_item network servers level i;
          w1 = addTopLevelItem item w
      in (w1, if Some (PyStr (if_server i)) = sel then Some (length (tw_rows w)) else restore_sel))"

fun nodes_loop ::
  "nodes_network \<Rightarrow> (string \<times> server_dict) list \<Rightarrow> nat \<Rightarrow> py_value option
   \<Rightarrow> (int \<times> interface list) list \<Rightarrow> tree_widget \<times> nat option
   \<Rightarrow> key_error + tree_widget \<times> nat option" where
  "nodes_loop network servers n_chains sel [] acc = Inr acc"
| "nodes_loop network servers n_chains sel ((k, items) # rest) acc =
     (case blockchains network k of
        None \<Rightarrow> Inl KeyError
      | Some b \<Rightarrow>
          (let (w, restore_sel) = acc;
               w1 = (if n_chains > 1 then addTopLevelItem (chain_item b) w else w);
               level = (if n_chains > 1 then 1 else 0)
           in nodes_loop network servers n_chains sel rest
                (fold (nodes_inner_body network servers level sel) items (w1, restore_sel))))"

definition NodesListWidget_update ::
  "nodes_network \<Rightarrow> (string \<times> server_dict) list \<Rightarrow> tree_widget \<Rightarrow> key_error + tree_widget" where
  "NodesListWidget_update network servers w =
     (let sel = (case currentItem w of None \<Rightarrow> None | Some item \<Rightarrow> item_data item 1);
          w1 = clear w;
          chain_items = get_blockchains network;
          n_chains = length chain_items
      in case nodes_loop network servers n_chains sel chain_items (w1, None) of
           Inl e \<Rightarrow> Inl e
         | Inr (w2, restore_sel) \<Rightarrow>
             (let w3 = restore_selection restore_sel w2;
                  w4 = w3\<lparr> tw_stretch_last_section := False \<rparr>;
                  w5 = setSectionResizeMode 0 Stretch w4;
                  w6 = setSectionResizeMode 1 ResizeToContents w5
              in Inr (setSectionResizeMode 2 ResizeToContents w6)))"

subsection \<open>\<open>SlpSearchJobListWidget.update\<close>\<close>

text \<open>
  The decorator \<open>rate_limited\<close> only delays or merges calls; the model is the body of
  the method. Its first statement passes the stored value of
  \<open>slp_validator_graphsearch_enabled\<close> to \<open>QCheckBox.setChecked\<close>, whose parameter is
  a \<open>bool\<close>: the binding converts a Python \<open>bool\<close> or \<open>int\<close> and raises
  \<open>TypeError\<close> for \<open>None\<close> or a \<open>str\<close>. Python's truth test is not applied, and the
  exception leaves \<open>update\<close> before anything is read or cleared. Besides the tree the
  method sets the label of downloaded bytes. \<open>humanbytes\<close> formats a byte count
  through floating-point division and is kept as a parameter. Only the last job found
  downloading is kept as \<open>working_item\<close> and it is inserted in front;
  \<open>insertTopLevelItem0\<close> moves the current item along with its row.
\<close>

datatype type_error = TypeError

fun setChecked_arg :: "py_value \<Rightarrow> type_error + bool" where
  "setChecked_arg (PyBool b) = Inr b"
| "setChecked_arg (PyInt i) = Inr (i \<noteq> 0)"
| "setChecked_arg PyNone = Inl TypeError"
| "setChecked_arg (PyStr s) = Inl TypeError"

record job =
  root_txid :: string
  txn_count_progress :: int
  gs_response_size :: int
  validity_cache_size :: int
  search_success :: bool
  job_complete :: bool
  waiting_to_cancel :: bool
  search_started :: bool
  exit_msg :: "string option"

record jobs_mgr =
  jobs_copy :: "(string \<times> job) list"
  bytes_downloaded :: int
  gs_enabled :: bool

record jobs_view =
  jv_tree :: tree_widget
  jv_slp_gs_enable_cb :: bool
  jv_total_data_txt :: string

definition job_status :: "bool \<Rightarrow> job \<Rightarrow> string" where
  "job_status enabled j =
     (if enabled then
        (if search_success j then ''Downloaded''
         else if job_complete j then ''Exited''
         else if waiting_to_cancel j then ''Stopping...''
         else if search_started j then ''Downloading...''
         else ''In Queue'')
      else ''NA'')"

definition job_item :: "(int \<Rightarrow> string) \<Rightarrow> bool \<Rightarrow> string \<Rightarrow> job \<Rightarrow> row" where
  "job_item humanbytes enabled k j =
     (let tx_count = str_int (txn_count_progress j);
          status = job_status enabled j;
          exit_text =
            (case exit_msg j of
               None \<Rightarrow> []
             | Some m \<Rightarrow> if m \<noteq> [] \<and> status \<noteq> ''Downloaded'' then '' ('' @ m @ '')'' else [])
      in \<lparr> row_texts = [take 6 (root_txid j), tx_count, humanbytes (gs_response_size j),
                         str_int (validity_cache_size j), status @ exit_text],
           row_data = [(0, PyStr k), (3, PyInt (validity_cache_size j)),
                       (4, PyStr (status @ exit_text))],
           row_icons = [], row_tooltip = [], row_lightened = False, row_level = 0 \<rparr>)"

definition jobs_loop_body ::
  "(int \<Rightarrow> string) \<Rightarrow> bool \<Rightarrow> nat \<Rightarrow> string \<times> job
   \<Rightarrow> row option \<times> row list \<times> row list \<Rightarrow> row option \<times> row list \<times> row list" where
  "jobs_loop_body humanbytes enabled n_jobs entry acc =
     (let (k, j) = entry;
          (working_item, completed_items, other_items) = acc
      in if n_jobs > 0 then
           (let status = job_status enabled j;
                x = job_item humanbytes enabled k j
            in if status = ''Downloading...'' then (Some x, completed_items, other_items)
               else if status = ''Downloaded'' then (working_item, completed_items @ [x], other_items)
               else (working_item, completed_items, other_items @ [x]))
         else acc)"

definition job_selected :: "py_value option \<Rightarrow> row \<Rightarrow> bool" where
  "job_selected selected_item_id i =
     (case selected_item_id of
        None \<Rightarrow> False
      | Some v \<Rightarrow> truthy v \<and> item_data i 0 = Some v)"

definition setCurrentSelectedItem :: "py_value option \<Rightarrow> nat \<Rightarrow> row \<Rightarrow> tree_widget \<Rightarrow> tree_widget" where
  "setCurrentSelectedItem selected_item_id index i w =
     (if job_selected selected_item_id i then w\<lparr> tw_current := Some index \<rparr> else w)"

definition add_job_item :: "py_value option \<Rightarrow> row \<Rightarrow> tree_widget \<Rightarrow> tree_widget" where
  "add_job_item selected_item_id i w =
     setCurrentSelectedItem selected_item_id (length (tw_rows w)) i (addTopLevelItem i w)"

definition insertTopLevelItem0 :: "row \<Rightarrow> tree_widget \<Rightarrow> tree_widget" where
  "insertTopLevelItem0 x w =
     w\<lparr> tw_rows := x # tw_rows w, tw_current := map_option Suc (tw_current w) \<rparr>"

definition SlpSearchJobListWidget_update ::
  "(int \<Rightarrow> string) \<Rightarrow> config \<Rightarrow> jobs_mgr \<Rightarrow> jobs_view \<Rightarrow> type_error + jobs_view" where
  "SlpSearchJobListWidget_update humanbytes conf mgr v =
     (case setChecked_arg (config_get conf ''slp_validator_graphsearch_enabled'' (PyBool False)) of
        Inl e \<Rightarrow> Inl e
      | Inr cb \<Rightarrow>
          (let w = jv_tree v;
               selected_item_id = (case currentItem w of None \<Rightarrow> None | Some c \<Rightarrow> item_data c 0);
               w1 = clear w;
               jobs = jobs_copy mgr;
               total = humanbytes (bytes_downloaded mgr);
               (working_item, completed_items, other_items) =
                  fold (jobs_loop_body humanbytes (gs_enabled mgr) (length jobs)) jobs (None, [], []);
               w2 = (if completed_items \<noteq> []
                     then fold (add_job_item selected_item_id) (rev completed_items) w1 else w1);
               w3 = (if other_items \<noteq> [] then fold (add_job_item selected_item_id) other_items w2
                     else w2);
               w4 = (case working_item of
                       None \<Rightarrow> w3
                     | Some x \<Rightarrow> setCurrentSelectedItem selected_item_id 0 x (insertTopLevelItem0 x w3));
               w5 = w4\<lparr> tw_stretch_last_section := True \<rparr>;
               w6 = setSectionResizeMode 0 ResizeToContents w5;
               w7 = setSectionResizeMode 1 ResizeToContents w6;
               w8 = setSectionResizeMode 2 ResizeToContents w7;
               w9 = setSectionResizeMode 3 ResizeToContents w8
           in Inr \<lparr> jv_tree = w9, jv_slp_gs_enable_cb = cb, jv_total_data_txt = total \<rparr>))"

text \<open>Sample snapshots.\<close>

definition sample_job :: job where
  "sample_job = \<lparr> root_txid = ''ab12cd34ef'', txn_count_progress = 3, gs_response_size = 2048,
     validity_cache_size = 5, search_success = False, job_complete = False,
     waiting_to_cancel = False, search_started = True, exit_msg = None \<rparr>"

definition sample_mgr :: jobs_mgr where
  "sample_mgr = \<lparr> jobs_copy = [(''t1'', sample_job \<lparr> search_success := True \<rparr>),
       (''t2'', sample_job), (''t3'', sample_job \<lparr> search_started := False \<rparr>)],
     bytes_downloaded = 4096, gs_enabled = True \<rparr>"

definition two_downloads_mgr :: jobs_mgr where
  "two_downloads_mgr = \<lparr> jobs_copy = [(''w1'', sample_job), (''w2'', sample_job)],
     bytes_downloaded = 4096, gs_enabled = True \<rparr>"

definition gs_on_config :: config where
  "gs_on_config = [''slp_validator_graphsearch_enabled'' \<mapsto> PyBool True]"

definition empty_jobs_view :: jobs_view where
  "empty_jobs_view = \<lparr> jv_tree = empty_widget, jv_slp_gs_enable_cb = False, jv_total_data_txt = [] \<rparr>"

definition split_network :: nodes_network where
  "split_network = \<lparr> get_blockchains = [(0, [\<lparr> if_id = 1, if_host = ''a.org'', if_server = ''a.org:50002:s'', if_tip = 700 \<rparr>]),
       (650, [\<lparr> if_id = 2, if_host = ''x.onion'', if_server = ''x.onion:50002:s'', if_tip = 651 \<rparr>])],
     blockchains = [0 \<mapsto> \<lparr> bc_name = ''main'', bc_base_height = 0, bc_height = 700 \<rparr>,
                    650 \<mapsto> \<lparr> bc_name = ''fork'', bc_base_height = 650, bc_height = 651 \<rparr>],
     nn_interface = Some 1 \<rparr>"

subsection \<open>Auxiliary notions for stating the properties of the renderers\<close>

text \<open>
  \<open>sel_scan P xs n r\<close> is the value of \<open>restore_sel\<close> after a loop that appends the
  rows \<open>xs\<close> to a widget of \<open>n\<close> rows, starting from \<open>r\<close>, and remembers each row
  that satisfies \<open>P\<close>: the last such row wins. \<open>current_key\<close> is the key stored in a
  column of the current item, as the renderers read it before clearing.
\<close>

fun sel_scan :: "(row \<Rightarrow> bool) \<Rightarrow> row list \<Rightarrow> nat \<Rightarrow> nat option \<Rightarrow> nat option" where
  "sel_scan P [] n r = r"
| "sel_scan P (x # xs) n r = sel_scan P xs (Suc n) (if P x then Some n else r)"

definition current_key :: "nat \<Rightarrow> tree_widget \<Rightarrow> py_value option" where
  "current_key column w = (case currentItem w of None \<Rightarrow> None | Some x \<Rightarrow> item_data x column)"

text \<open>The entries of the snapshot that the server list shows, and their rows.\<close>

definition server_listed :: "string \<Rightarrow> bool \<Rightarrow> string \<times> server_dict \<Rightarrow> bool" where
  "server_listed protocol use_tor entry =
     ((use_tor \<or> \<not> endswith (str_lower (fst entry)) ''.onion'')
      \<and> (case snd entry protocol of None \<Rightarrow> False | Some port \<Rightarrow> port \<noteq> []))"

definition server_entry_item ::
  "server_network \<Rightarrow> bool \<Rightarrow> string \<Rightarrow> string \<times> server_dict \<Rightarrow> row" where
  "server_entry_item network wl_only protocol entry =
     server_item network wl_only protocol (fst entry) (snd entry) (the (snd entry protocol))"

definition server_rows ::
  "server_network \<Rightarrow> (string \<times> server_dict) list \<Rightarrow> string \<Rightarrow> bool \<Rightarrow> row list" where
  "server_rows network servers protocol use_tor =
     map (server_entry_item network (is_whitelist_only network) protocol)
       (filter (server_listed protocol use_tor) (sort_key fst servers))"

text \<open>The rows of the postage and SLPDB lists and of the graph-search list.\<close>

definition post_office_rows :: "string list \<Rightarrow> row list" where
  "post_office_rows post_office_list = map (\<lambda>server. plain_item server server) post_office_list"

definition gs_rows :: "(string \<times> 'v) list \<Rightarrow> string \<Rightarrow> row list" where
  "gs_rows slp_gs_list gs_host =
     map (\<lambda>entry. plain_item (fst entry @ (if fst entry = gs_host then star else [])) (fst entry))
       slp_gs_list"

text \<open>
  For the nodes list: the test made on an interface row, the rows of one chain and of
  the whole snapshot, and whether every chain key of the snapshot is known to
  \<open>network.blockchains\<close>.
\<close>

definition node_selected :: "py_value option \<Rightarrow> row \<Rightarrow> bool" where
  "node_selected sel x = (item_data x 0 = Some (PyInt 0) \<and> item_data x 1 = sel)"

definition chain_rows ::
  "nodes_network \<Rightarrow> (string \<times> server_dict) list \<Rightarrow> nat \<Rightarrow> int \<times> interface list \<Rightarrow> row list" where
  "chain_rows network servers n_chains entry =
     (if n_chains > 1 then [chain_item (the (blockchains network (fst entry)))] else [])
     @ map (node_item network servers (if n_chains > 1 then 1 else 0)) (snd entry)"

definition nodes_rows :: "nodes_network \<Rightarrow> (string \<times> server_dict) list \<Rightarrow> row list" where
  "nodes_rows network servers =
     concat (map (chain_rows network servers (length (get_blockchains network)))
               (get_blockchains network))"

definition chains_known :: "nodes_network \<Rightarrow> bool" where
  "chains_known network = list_all (\<lambda>entry. blockchains network (fst entry) \<noteq> None) (get_blockchains network)"

text \<open>
  For the job list: the three groups that the loop collects, the rows added at the end
  of the widget, all rows, and the current item after the three insertion phases.
\<close>

definition jobs_split :: "(int \<Rightarrow> string) \<Rightarrow> jobs_mgr \<Rightarrow> row option \<times> row list \<times> row list" where
  "jobs_split humanbytes mgr =
     fold (jobs_loop_body humanbytes (gs_enabled mgr) (length (jobs_copy mgr))) (jobs_copy mgr)
       (None, [], [])"

definition jobs_listed :: "(int \<Rightarrow> string) \<Rightarrow> jobs_mgr \<Rightarrow> row list" where
  "jobs_listed humanbytes mgr =
     (case jobs_split humanbytes mgr of (working_item, completed_items, other_items) \<Rightarrow>
        rev completed_items @ other_items)"

definition jobs_rows :: "(int \<Rightarrow> string) \<Rightarrow> jobs_mgr \<Rightarrow> row list" where
  "jobs_rows humanbytes mgr =
     (case fst (jobs_split humanbytes mgr) of
        None \<Rightarrow> jobs_listed humanbytes mgr
      | Some x \<Rightarrow> x # jobs_listed humanbytes mgr)"

definition jobs_current :: "(row \<Rightarrow> bool) \<Rightarrow> row option \<Rightarrow> row list \<Rightarrow> nat option" where
  "jobs_current P working_item listed =
     (case working_item of
        None \<Rightarrow> sel_scan P listed 0 None
      | Some x \<Rightarrow> if P x then Some 0 else map_option Suc (sel_scan P listed 0 None))"

text \<open>A widget whose only row, an SLPDB endpoint, is the current item.\<close>

definition selected_widget :: tree_widget where
  "selected_widget =
     empty_widget\<lparr> tw_rows := [plain_item ''https://slpdb.example'' ''https://slpdb.example''],
                   tw_current := Some 0 \<rparr>"

section \<open>The life cycle of \<open>TorDetector\<close>\<close>

subsection \<open>The detector as a thread\<close>

text \<open>
  \<open>TorDetector\<close> is a \<open>QThread\<close> driven from the UI thread (\<open>start\<close>, \<open>stop\<close>),
  from whichever thread reports a change of the active port (\<open>on_tor_port_changed\<close>)
  and by its own \<open>run\<close>. The model is a transition system whose steps are the atomic
  actions of these threads, so that every interleaving is a sequence of steps.

  \<^item> \<open>heap\<close> holds the \<open>queue.Queue\<close> objects ever created, by address, and \<open>stopQ\<close>
    is the attribute \<open>self.stopQ\<close>: unset before the first \<open>start\<close>, an address
    afterwards. A queue item is \<open>None\<close> (the stop sentinel) or a string (\<open>'kick'\<close>).
  \<^item> \<open>thread\<close> is the state of the worker: not started, running at one of four places
    of \<open>run\<close> (about to make a pass, about to call \<open>self.stopQ.get\<close>, inside \<open>get\<close>
    on a given queue, inside \<open>msleep\<close>), or finished. \<open>isRunning\<close> is
    \<open>QThread.isRunning\<close>; \<open>QThread.start\<close> does nothing to a running thread and starts
    \<open>run\<close> afresh otherwise; \<open>QThread.wait\<close> returns once the thread is not running.
  \<^item> \<open>ui\<close> is the place of the UI thread: idle, or inside \<open>start\<close> after the
    assignment, or inside \<open>stop\<close> before the \<open>put\<close> or in \<open>wait\<close>. \<open>returned\<close> lists
    the calls that have returned.
  \<^item> \<open>pending_kicks\<close> counts the calls of \<open>on_tor_port_changed\<close> that have passed their
    test and not yet done their \<open>put\<close>.
  \<^item> \<open>events\<close> is the log of the worker: signals emitted, a \<open>get\<close> that timed out
    after the given milliseconds, items dequeued, sleeps, and the return from \<open>run\<close>.
\<close>

type_synonym qitem = "string option"

datatype worker_pc = At_pass | At_get | In_get nat | In_msleep

datatype thread_state = Not_started | Running worker_pc | Finished

datatype ui_pc = Ui_idle | In_start | In_stop_put | In_stop_wait

datatype ui_call = Call_start | Call_stop

datatype worker_event =
    Emitted found_proxy
  | Get_timeout nat
  | Dequeued qitem
  | Slept nat
  | Returned
  | Attribute_error

record detector =
  heap :: "qitem list list"
  stopQ :: "nat option"
  thread :: thread_state
  ui :: ui_pc
  returned :: "ui_call list"
  pending_kicks :: nat
  det_network :: network
  probes :: nat
  events :: "worker_event list"

text \<open>Reading and appending to a queue of the heap, and logging.\<close>

definition isRunning :: "detector \<Rightarrow> bool" where
  "isRunning s = (case thread s of Running _ \<Rightarrow> True | _ \<Rightarrow> False)"

definition queue_at :: "detector \<Rightarrow> nat \<Rightarrow> qitem list" where
  "queue_at s q = (if q < length (heap s) then heap s ! q else [])"

definition put :: "nat \<Rightarrow> qitem \<Rightarrow> detector \<Rightarrow> detector" where
  "put q x s = (if q < length (heap s) then s\<lparr> heap := (heap s)[q := heap s ! q @ [x]] \<rparr> else s)"

definition log_event :: "worker_event list \<Rightarrow> detector \<Rightarrow> detector" where
  "log_event es s = s\<lparr> events := events s @ es \<rparr>"

text \<open>
  \<open>start\<close> in its two actions: \<open>self.stopQ = queue.Queue()\<close>, then
  \<open>super().start()\<close>. \<open>stop\<close> in its three: the test \<open>self.isRunning()\<close>,
  \<open>self.stopQ.put(None)\<close>, and \<open>self.wait()\<close>, which can only complete when the thread
  is not running.
\<close>

definition start_assign :: "detector \<Rightarrow> detector" where
  "start_assign s = s\<lparr> heap := heap s @ [[]], stopQ := Some (length (heap s)), ui := In_start \<rparr>"

definition start_super :: "detector \<Rightarrow> detector" where
  "start_super s =
     s\<lparr> thread := (case thread s of Running pc \<Rightarrow> Running pc | _ \<Rightarrow> Running At_pass),
        ui := Ui_idle, returned := returned s @ [Call_start] \<rparr>"

definition start :: "detector \<Rightarrow> detector" where
  "start s = start_super (start_assign s)"

definition stop_test :: "detector \<Rightarrow> detector" where
  "stop_test s =
     (if isRunning s then s\<lparr> ui := In_stop_put \<rparr>
      else s\<lparr> ui := Ui_idle, returned := returned s @ [Call_stop] \<rparr>)"

definition stop_put :: "detector \<Rightarrow> detector" where
  "stop_put s =
     (case stopQ s of
        Some q \<Rightarrow> (put q None s)\<lparr> ui := In_stop_wait \<rparr>
      | None \<Rightarrow> s\<lparr> ui := Ui_idle \<rparr>)"

definition stop_wait :: "detector \<Rightarrow> detector" where
  "stop_wait s = s\<lparr> ui := Ui_idle, returned := returned s @ [Call_stop] \<rparr>"

text \<open>
  \<open>on_tor_port_changed\<close>: the test of the controller's port and of \<open>isRunning\<close>,
  then \<open>self.stopQ.put('kick')\<close>; \<open>on_tor_port_changed\<close> itself is the call run
  without interruption.
\<close>

definition on_tor_port_changed_test :: "tor_controller \<Rightarrow> detector \<Rightarrow> detector" where
  "on_tor_port_changed_test controller s =
     (if truthy_port (active_socks_port controller) \<and> isRunning s
      then s\<lparr> pending_kicks := Suc (pending_kicks s) \<rparr> else s)"

definition on_tor_port_changed_put :: "detector \<Rightarrow> detector" where
  "on_tor_port_changed_put s =
     (case stopQ s of
        Some q \<Rightarrow> (put q (Some ''kick'') s)\<lparr> pending_kicks := pending_kicks s - 1 \<rparr>
      | None \<Rightarrow> s\<lparr> pending_kicks := pending_kicks s - 1 \<rparr>)"

definition on_tor_port_changed :: "tor_controller \<Rightarrow> detector \<Rightarrow> detector" where
  "on_tor_port_changed controller s =
     (if truthy_port (active_socks_port controller) \<and> isRunning s
      then on_tor_port_changed_put (on_tor_port_changed_test controller s) else s)"

text \<open>
  One action of \<open>run\<close>. A pass probes the candidates and emits its signal. \<open>get\<close>
  returns the head of its queue when there is one; on an empty queue the only way on is
  the timeout of 10 s (\<open>queue.Empty\<close>, then \<open>continue\<close>). The sentinel ends \<open>run\<close>;
  any other item is followed by \<open>QThread.msleep(250)\<close> and a new pass.
\<close>

definition run_step :: "socket_world \<Rightarrow> detector \<Rightarrow> detector" where
  "run_step w s =
     (case thread s of
        Running At_pass \<Rightarrow>
          (let (n, emitted) = probe_pass w (probes s) (det_network s)
           in (log_event (map Emitted emitted) s)\<lparr> probes := n, thread := Running At_get \<rparr>)
      | Running At_get \<Rightarrow>
          (case stopQ s of
             Some q \<Rightarrow> s\<lparr> thread := Running (In_get q) \<rparr>
           | None \<Rightarrow> (log_event [Attribute_error] s)\<lparr> thread := Finished \<rparr>)
      | Running (In_get q) \<Rightarrow>
          (case queue_at s q of
             [] \<Rightarrow> (log_event [Get_timeout 10000] s)\<lparr> thread := Running At_pass \<rparr>
           | None # rest \<Rightarrow>
               (log_event [Dequeued None, Returned] s)
                 \<lparr> heap := (heap s)[q := rest], thread := Finished \<rparr>
           | Some kick # rest \<Rightarrow>
               (log_event [Dequeued (Some kick)] s)
                 \<lparr> heap := (heap s)[q := rest], thread := Running In_msleep \<rparr>)
      | Running In_msleep \<Rightarrow> (log_event [Slept 250] s)\<lparr> thread := Running At_pass \<rparr>
      | _ \<Rightarrow> s)"

text \<open>The transition system and its reachable states, from a detector just constructed.\<close>

inductive step :: "socket_world \<Rightarrow> detector \<Rightarrow> detector \<Rightarrow> bool" for w where
  ui_start_assign: "ui s = Ui_idle \<Longrightarrow> step w s (start_assign s)"
| ui_start_super: "ui s = In_start \<Longrightarrow> step w s (start_super s)"
| ui_stop_test: "ui s = Ui_idle \<Longrightarrow> step w s (stop_test s)"
| ui_stop_put: "ui s = In_stop_put \<Longrightarrow> step w s (stop_put s)"
| ui_stop_wait: "ui s = In_stop_wait \<Longrightarrow> \<not> isRunning s \<Longrightarrow> step w s (stop_wait s)"
| worker: "isRunning s \<Longrightarrow> step w s (run_step w s)"
| port_changed_test: "step w s (on_tor_port_changed_test controller s)"
| port_changed_put: "0 < pending_kicks s \<Longrightarrow> step w s (on_tor_port_changed_put s)"
| network_changed: "step w s (s\<lparr> det_network := net \<rparr>)"

definition new_detector :: "network \<Rightarrow> detector" where
  "new_detector net =
     \<lparr> heap = [], stopQ = None, thread = Not_started, ui = Ui_idle, returned = [],
       pending_kicks = 0, det_network = net, probes = 0, events = [] \<rparr>"

definition reachable :: "socket_world \<Rightarrow> network \<Rightarrow> detector \<Rightarrow> bool" where
  "reachable w net s = (step w)\<^sup>*\<^sup>* (new_detector net) s"

subsection \<open>Auxiliary notions for the life cycle\<close>

text \<open>
  The invariant behind \<open>stop\<close>; the phases of the worker after a wake-up item \<open>k\<close>
  has reached the head of the queue it waits on, relative to the log \<open>es\<close> at that
  moment; and the effect that the actions of the other threads may have on what the
  worker sees.
\<close>

definition stop_invariant :: "detector \<Rightarrow> bool" where
  "stop_invariant s =
     ((ui s = Ui_idle \<and> returned s \<noteq> [] \<and> last (returned s) = Call_stop \<longrightarrow> \<not> isRunning s)
      \<and> (\<forall>q. stopQ s = Some q \<longrightarrow> q < length (heap s))
      \<and> (thread s \<noteq> Not_started \<or> ui s \<noteq> Ui_idle \<longrightarrow> stopQ s \<noteq> None))"

definition kicked :: "worker_event list \<Rightarrow> string \<Rightarrow> nat \<Rightarrow> detector \<Rightarrow> bool" where
  "kicked es k q s =
     ((thread s = Running (In_get q) \<and> q < length (heap s) \<and> (\<exists>r. heap s ! q = Some k # r)
         \<and> events s = es)
      \<or> (thread s = Running In_msleep \<and> events s = es @ [Dequeued (Some k)])
      \<or> (thread s = Running At_pass \<and> events s = es @ [Dequeued (Some k), Slept 250])
      \<or> (\<exists>sig more. events s = es @ [Dequeued (Some k), Slept 250, Emitted sig] @ more))"

definition extends :: "detector \<Rightarrow> detector \<Rightarrow> bool" where
  "extends s s' =
     (thread s' = thread s \<and> events s' = events s \<and> length (heap s) \<le> length (heap s')
      \<and> (\<forall>q<length (heap s). \<exists>more. heap s' ! q = heap s ! q @ more))"

text \<open>
  For the exit of the worker: the sentinel lies in the queue that \<open>self.stopQ\<close> names; a
  bound on the number of actions the worker still takes before it returns, counted from
  the number of items in front of the sentinel and from the items of an older queue the
  worker may still be reading; and the invariant of a caller blocked in \<open>wait\<close>.
\<close>

definition sentinel_pending :: "detector \<Rightarrow> bool" where
  "sentinel_pending s =
     (case stopQ s of
        None \<Rightarrow> False
      | Some q \<Rightarrow> q < length (heap s) \<and> None \<in> set (heap s ! q))"

definition exit_measure :: "detector \<Rightarrow> nat" where
  "exit_measure s =
     (case stopQ s of
        None \<Rightarrow> 0
      | Some q \<Rightarrow>
          (let pos = length (takeWhile (\<lambda>x. x \<noteq> None) (heap s ! q))
           in case thread s of
                Running (In_get q') \<Rightarrow>
                  if q' = q then 4 * pos + 1 else 4 * pos + 4 + 4 * length (queue_at s q')
              | Running At_get \<Rightarrow> 4 * pos + 2
              | Running At_pass \<Rightarrow> 4 * pos + 3
              | Running In_msleep \<Rightarrow> 4 * pos + 4
              | _ \<Rightarrow> 0))"

definition wait_invariant :: "detector \<Rightarrow> bool" where
  "wait_invariant s = (ui s = In_stop_wait \<and> isRunning s \<longrightarrow> sentinel_pending s)"

subsection \<open>Sample detector\<close>

text \<open>
  A detector started on the sample network that has made its first pass and waits in
  \<open>get\<close>, and a controller with an active port.
\<close>

definition waiting_detector :: detector where
  "waiting_detector = (run_step tor_world ^^ 2) (start (new_detector tor_network))"

definition active_controller :: tor_controller where
  "active_controller = \<lparr> is_enabled = True, active_socks_port = Some 9999 \<rparr>"

section \<open>Properties of the probe\<close>

lemma bytes_in_sublist: "bytes_in needle hay = sublist needle hay"
  by (induction hay) (auto simp: sublist_Cons_right)

lemma is_tor_port_outcome_Inr: "is_tor_port_outcome w n port = Inr (is_tor_port w n port)"
  by (simp add: is_tor_port_def is_tor_port_outcome_def split: sum.splits bool.splits)



lemma probe_ports_single: "\<exists>sig. snd (probe_ports w n ps) = [sig]"
  by (induction ps arbitrary: n) auto

text \<open>
  Claim C1. For every port, \<open>is_tor_port\<close> returns true exactly when the socket is
  created, the connection to \<open>127.0.0.1:port\<close> succeeds (within the 0.1 s timeout: an
  attempt that times out is a socket error), sending the fixed request \<open>b"GET\n"\<close>
  succeeds, and the first reply of at most 1024 bytes contains
  \<open>Tor is not an HTTP Proxy\<close>. A socket error at any stage of the probe yields \<open>False\<close>,
  and the function always returns a value: no exception leaves it.
\<close>

theorem is_tor_port_iff:
  "(is_tor_port w n port \<longleftrightarrow>
      (\<exists>k reply. sw_socket w n = Inr () \<and>
         sw_connect w n (''127.0.0.1'', port) = Inr () \<and>
         sw_send w n (''127.0.0.1'', port) GET_request = Inr k \<and>
         sw_recv w n (''127.0.0.1'', port) GET_request 1024 = Inr reply \<and>
         sublist tor_rejection reply))
   \<and> (\<forall>e. is_tor_port_try w n port = Inl e \<longrightarrow> is_tor_port_outcome w n port = Inr False)
   \<and> (\<exists>b. is_tor_port_outcome w n port = Inr b)"
  by (auto simp: is_tor_port_def is_tor_port_outcome_def is_tor_port_try_def bytes_in_sublist
      split: sum.splits bool.splits)

theorem is_tor_port_iff_witness:
  "is_tor_port tor_world 0 9150 \<and> \<not> is_tor_port tor_world 0 9050
   \<and> is_tor_port_try tor_world 0 9050 = Inl ConnectionRefused
   \<and> is_tor_port_outcome tor_world 0 9050 = Inr False"
  using is_tor_port_iff [of tor_world 0 9150] is_tor_port_iff [of tor_world 0 9050]
  by (simp add: tor_world_def GET_request_def tor_rejection_def is_tor_port_def
      is_tor_port_outcome_def is_tor_port_try_def)



section \<open>Properties of the dialog shell\<close>

text \<open>
  Claim C6. On every close attempt with a risky connection (SSL box unchecked, Tor box
  unchecked, host not ending in \<open>.onion\<close> in any letter case) and no opt-out stored under
  \<open>non_ssl_noprompt\<close>, exactly one question box is shown; the close event is ignored if
  and only if the user declines; and if the user ticks the box's check box, the opt-out
  is stored under \<open>non_ssl_noprompt\<close>, after which no close attempt shows the question
  again, whatever the check boxes, the host and the answer are.
\<close>

theorem closeEvent_prompt:
  assumes "\<not> ssl_cb d" and "\<not> tor_cb d"
    and "\<not> endswith (str_lower (server_host d)) ''.onion''"
    and "\<not> truthy (config_get (nd_config d) ''non_ssl_noprompt'' (PyBool False))"
  shows "cr_questions (closeEvent (ok, chk) d) = 1
       \<and> (cr_event (closeEvent (ok, chk) d) = Ignored \<longleftrightarrow> \<not> ok)
       \<and> (chk \<longrightarrow>
            nd_config (cr_dialog (closeEvent (ok, chk) d)) ''non_ssl_noprompt'' = Some (PyBool True)
            \<and> (\<forall>d' answer'.
                  nd_config d' ''non_ssl_noprompt''
                    = nd_config (cr_dialog (closeEvent (ok, chk) d)) ''non_ssl_noprompt''
                  \<longrightarrow> cr_questions (closeEvent answer' d') = 0
                    \<and> cr_event (closeEvent answer' d') = To_super))"
  using assms by (auto simp: closeEvent_def config_get_def config_set_key_def Let_def)

theorem closeEvent_prompt_witness:
  "cr_questions (closeEvent (False, True) plain_dialog) = 1
   \<and> cr_event (closeEvent (False, True) plain_dialog) = Ignored
   \<and> cr_questions (closeEvent (True, False) (cr_dialog (closeEvent (False, True) plain_dialog))) = 0"
proof -
  have h1: "\<not> ssl_cb plain_dialog" and h2: "\<not> tor_cb plain_dialog"
    by (simp_all add: plain_dialog_def)
  have h3: "\<not> endswith (str_lower (server_host plain_dialog)) ''.onion''"
    by (simp add: plain_dialog_def endswith_def str_lower_def lower_char_def suffix_to_prefix)
  have h4: "\<not> truthy (config_get (nd_config plain_dialog) ''non_ssl_noprompt'' (PyBool False))"
    by (simp add: plain_dialog_def config_get_def)
  note t = closeEvent_prompt [OF h1 h2 h3 h4, of False True]
  from t have a: "cr_questions (closeEvent (False, True) plain_dialog) = 1" by (rule conjunct1)
  from t have b: "cr_event (closeEvent (False, True) plain_dialog) = Ignored" by simp
  from t have "\<forall>d' answer'.
      nd_config d' ''non_ssl_noprompt''
        = nd_config (cr_dialog (closeEvent (False, True) plain_dialog)) ''non_ssl_noprompt''
      \<longrightarrow> cr_questions (closeEvent answer' d') = 0 \<and> cr_event (closeEvent answer' d') = To_super"
    by simp
  then have c: "cr_questions (closeEvent (True, False) (cr_dialog (closeEvent (False, True) plain_dialog))) = 0"
    by blast
  from a b c show ?thesis by simp
qed

section \<open>Properties of the validation-method panel\<close>

lemmas panel_defs = emit_def hide_gs_widgets_def show_gs_widgets_def hide_slpdb_widgets_def
  show_slpdb_widgets_def use_slp_gs_def use_slp_slpdb_def slpdb_msg_box_def
  gs_and_slpdb_checked_msg_box_def update_slp_slpdb_server_def slpdb_endpoint_msg_box_def

text \<open>
  The check boxes. After \<open>use_slp_gs\<close>, after \<open>slpdb_msg_box\<close> (which runs
  \<open>use_slp_slpdb\<close> on confirmation) and after \<open>gs_and_slpdb_checked_msg_box\<close> closed
  by one of its three buttons, from any state of the panel, at most one of the check
  boxes \<open>slp_gs_enable_cb\<close> and \<open>slp_slpdb_enable_cb\<close> is checked.
\<close>

lemma check_boxes_exclusive:
  "\<not> (slp_gs_enable_cb (use_slp_gs p) \<and> slp_slpdb_enable_cb (use_slp_gs p))
   \<and> \<not> (slp_gs_enable_cb (slpdb_msg_box b p) \<and> slp_slpdb_enable_cb (slpdb_msg_box b p))
   \<and> (ret \<in> {0, 1, 2} \<longrightarrow>
        \<not> (slp_gs_enable_cb (gs_and_slpdb_checked_msg_box ret p)
           \<and> slp_slpdb_enable_cb (gs_and_slpdb_checked_msg_box ret p)))
   \<and> (slp_gs_enable_cb p \<longrightarrow>
        slp_gs_enable_cb (use_slp_gs p) \<and> \<not> slp_slpdb_enable_cb (use_slp_gs p))
   \<and> (slp_slpdb_enable_cb p \<longrightarrow>
        slp_slpdb_enable_cb (slpdb_msg_box Ok p) \<and> \<not> slp_gs_enable_cb (slpdb_msg_box Ok p))
   \<and> slp_slpdb_enable_cb (gs_and_slpdb_checked_msg_box 1 p)
   \<and> \<not> slp_gs_enable_cb (gs_and_slpdb_checked_msg_box 1 p)"
  by (auto simp: panel_defs Let_def)

text \<open>
  What the two click handlers ask of \<open>slp_gs_mgr\<close>, from any state of the panel:
  \<open>use_slp_gs\<close> calls \<open>toggle_graph_search\<close> alone, and \<open>slpdb_msg_box\<close> confirmed
  with \<open>Ok\<close> calls \<open>toggle_slpdb_validation\<close> alone.
\<close>

lemma use_slp_gs_events:
  "panel_events (use_slp_gs p)
     = panel_events p @ [Toggle_graph_search (slp_gs_enable_cb p), Gs_list_update]"
  by (simp add: panel_defs Let_def)

lemma slpdb_msg_box_Ok_events:
  assumes "slp_slpdb_enable_cb p"
  shows "panel_events (slpdb_msg_box Ok p)
     = panel_events p @ [Msg_box Information ''SLPDB Validation'', Toggle_slpdb_validation True,
                         Slpdb_list_update]"
  using assms by (simp add: panel_defs Let_def)


text \<open>
  A remark outside the three handlers: when the panel is built with both
  methods enabled in the configuration and the user picks graph search in the chooser,
  \<open>slpdb_is_checked\<close> leaves both boxes checked, until the first click on either box
  runs one of the handlers above.
\<close>

lemma slpdb_is_checked_both:
  assumes "truthy (config_get conf ''slp_validator_slpdb_validation_enabled'' (PyBool False))"
    and "truthy (config_get conf ''slp_validator_graphsearch_enabled'' (PyBool False))"
    and "slp_gs_enable_cb p"
  shows "slp_gs_enable_cb (slpdb_is_checked conf 0 p) \<and> slp_slpdb_enable_cb (slpdb_is_checked conf 0 p)"
  using assms by (simp add: slpdb_is_checked_def panel_defs Let_def)

text \<open>
  Claim C8. When \<open>urlparse\<close> finds an empty scheme or an empty network location in the
  entered endpoint (or raises \<open>ValueError\<close>), \<open>slpdb_endpoint_msg_box\<close> executes the
  modal error box and does nothing else: \<open>update_slp_slpdb_server\<close> is not called.
  \<open>is_url\<close> is a boolean for every string, true exactly for a parse with a scheme and a
  network location; the \<open>ValueError\<close> of the parser is caught inside it. A request to
  add an endpoint is made only for a well-formed URL confirmed with \<open>Ok\<close>, and it is
  the entered text that is added.
\<close>

theorem endpoint_validation:
  "((\<exists>e. urlparse (slp_slpdb_server_host p) = Inl e)
      \<or> (\<exists>r. urlparse (slp_slpdb_server_host p) = Inr r \<and> (pr_scheme r = [] \<or> pr_netloc r = []))
     \<longrightarrow> slpdb_endpoint_msg_box urlparse b p = emit (Msg_box Critical ''Error'') p)
   \<and> (is_url urlparse url \<longleftrightarrow>
        (\<exists>r. urlparse url = Inr r \<and> pr_scheme r \<noteq> [] \<and> pr_netloc r \<noteq> []))
   \<and> (\<forall>server add remove.
        Update_slpdb_host server add remove \<in> set (panel_events (slpdb_endpoint_msg_box urlparse b p))
        \<and> Update_slpdb_host server add remove \<notin> set (panel_events p)
        \<longrightarrow> is_url urlparse (slp_slpdb_server_host p) \<and> b = Ok
            \<and> server = slp_slpdb_server_host p \<and> add \<and> \<not> remove)
   \<and> (is_url urlparse (slp_slpdb_server_host p) \<longrightarrow>
        slpdb_endpoint_msg_box urlparse Ok p =
          update_slp_slpdb_server (slp_slpdb_server_host p) True False
            (emit (Msg_box Information ''Add SLPDB Endpoint'') p)
        \<and> slpdb_endpoint_msg_box urlparse Cancel p
            = emit (Msg_box Information ''Add SLPDB Endpoint'') p)"
  by (auto simp: panel_defs is_url_def Let_def split: sum.splits value_error.splits)

theorem endpoint_validation_witness:
  "slpdb_endpoint_msg_box sample_urlparse Ok both_checked_panel
     = emit (Msg_box Critical ''Error'') both_checked_panel
   \<and> is_url sample_urlparse ''https://slpdb.example''"
proof -
  have h: "\<exists>r. sample_urlparse (slp_slpdb_server_host both_checked_panel) = Inr r
             \<and> (pr_scheme r = [] \<or> pr_netloc r = [])"
    by (simp add: sample_urlparse_def both_checked_panel_def)
  have g: "\<exists>r. sample_urlparse ''https://slpdb.example'' = Inr r
             \<and> pr_scheme r \<noteq> [] \<and> pr_netloc r \<noteq> []"
    by (simp add: sample_urlparse_def)
  note t = endpoint_validation [of sample_urlparse both_checked_panel Ok "''https://slpdb.example''"]
  from t h have a: "slpdb_endpoint_msg_box sample_urlparse Ok both_checked_panel
     = emit (Msg_box Critical ''Error'') both_checked_panel"
    by blast
  from t g have b: "is_url sample_urlparse ''https://slpdb.example''"
    by blast
  from a b show ?thesis by simp
qed

section \<open>Properties of the list renderers\<close>

lemma sel_scan_append:
  "sel_scan P (xs @ ys) n r = sel_scan P ys (n + length xs) (sel_scan P xs n r)"
  by (induction xs arbitrary: n r) auto

lemma sel_scan_cong:
  "(\<And>x. x \<in> set xs \<Longrightarrow> P x = Q x) \<Longrightarrow> sel_scan P xs n r = sel_scan Q xs n r"
  by (induction xs arbitrary: n r) auto

lemma sel_scan_none:
  "(\<And>x. x \<in> set xs \<Longrightarrow> \<not> P x) \<Longrightarrow> sel_scan P xs n r = r"
  by (induction xs arbitrary: n r) auto

lemma sel_scan_Some:
  "sel_scan P xs n r = Some i \<Longrightarrow> r = Some i \<or> (n \<le> i \<and> i < n + length xs \<and> P (xs ! (i - n)))"
proof (induction xs arbitrary: n r)
  case Nil
  then show ?case by simp
next
  case (Cons x xs)
  from Cons.prems have "sel_scan P xs (Suc n) (if P x then Some n else r) = Some i" by simp
  from Cons.IH [OF this]
  have "(if P x then Some n else r) = Some i
        \<or> (Suc n \<le> i \<and> i < Suc n + length xs \<and> P (xs ! (i - Suc n)))" .
  then show ?case
  proof
    assume "(if P x then Some n else r) = Some i"
    then show ?thesis by (cases "P x") auto
  next
    assume a: "Suc n \<le> i \<and> i < Suc n + length xs \<and> P (xs ! (i - Suc n))"
    then have "i - n = Suc (i - Suc n)" by arith
    with a show ?thesis by simp
  qed
qed

lemma sel_scan_0_Some:
  "sel_scan P xs 0 None = Some i \<Longrightarrow> i < length xs \<and> P (xs ! i)"
  using sel_scan_Some [of P xs 0 None i] by simp

lemma sel_scan_exists:
  "\<exists>x\<in>set xs. P x \<Longrightarrow> \<exists>i. sel_scan P xs n r = Some i \<and> n \<le> i \<and> i < n + length xs \<and> P (xs ! (i - n))"
proof (induction xs arbitrary: n r)
  case Nil
  then show ?case by simp
next
  case (Cons x xs)
  show ?case
  proof (cases "\<exists>y\<in>set xs. P y")
    case True
    from Cons.IH [OF True, of "Suc n" "if P x then Some n else r"]
    obtain i where i: "sel_scan P xs (Suc n) (if P x then Some n else r) = Some i"
      "Suc n \<le> i" "i < Suc n + length xs" "P (xs ! (i - Suc n))" by blast
    then have "i - n = Suc (i - Suc n)" by arith
    with i show ?thesis by (intro exI [of _ i]) simp
  next
    case False
    with Cons.prems have px: "P x" by auto
    from False have "sel_scan P xs (Suc n) (Some n) = Some n"
      by (intro sel_scan_none) auto
    with px show ?thesis by (intro exI [of _ n]) simp
  qed
qed

lemma item_data_server_item:
  "item_data (server_item network wl_only protocol host d port) 2
     = Some (PyStr (serialize_server host port protocol))"
  by (simp add: item_data_def server_item_def Let_def split: prod.splits)

lemma server_fold:
  "fold (server_loop_body network wl_only protocol use_tor sel) es (w, r) =
     (w\<lparr> tw_rows := tw_rows w
           @ map (server_entry_item network wl_only protocol) (filter (server_listed protocol use_tor) es) \<rparr>,
      sel_scan (\<lambda>x. item_data x 2 = sel)
        (map (server_entry_item network wl_only protocol) (filter (server_listed protocol use_tor) es))
        (length (tw_rows w)) r)"
proof (induction es arbitrary: w r)
  case Nil
  show ?case by simp
next
  case (Cons e es)
  obtain host d where e: "e = (host, d)" by (cases e)
  show ?case
  proof (cases "server_listed protocol use_tor e")
    case False
    then have "server_loop_body network wl_only protocol use_tor sel e (w, r) = (w, r)"
      by (auto simp: e server_listed_def server_loop_body_def Let_def split: option.splits)
    with False Cons.IH [of w r] show ?thesis by simp
  next
    case True
    then obtain port where port: "d protocol = Some port" "port \<noteq> []"
      and tor: "use_tor \<or> \<not> endswith (str_lower host) ''.onion''"
      by (auto simp: e server_listed_def split: option.splits)
    have x: "server_entry_item network wl_only protocol (host, d)
               = server_item network wl_only protocol host d port"
      by (simp add: server_entry_item_def port)
    have step: "server_loop_body network wl_only protocol use_tor sel (host, d) (w, r) =
        (addTopLevelItem (server_item network wl_only protocol host d port) w,
         if Some (PyStr (serialize_server host port protocol)) = sel
         then Some (length (tw_rows w)) else r)"
      using port tor by (auto simp: server_loop_body_def Let_def)
    show ?thesis
      using True
      by (simp add: e step x Cons.IH addTopLevelItem_def item_data_server_item)
  qed
qed

lemma rescan_idem:
  assumes keys: "\<And>x. x \<in> set R \<Longrightarrow> item_data x c \<noteq> None"
    and cur: "cur = sel_scan (\<lambda>x. item_data x c = k) R 0 None"
  shows "sel_scan (\<lambda>x. item_data x c =
            (case cur of None \<Rightarrow> None
             | Some i \<Rightarrow> if i < length R then item_data (R ! i) c else None)) R 0 None = cur"
proof (cases cur)
  case None
  then show ?thesis using keys by (simp add: sel_scan_none)
next
  case (Some i)
  with cur have "sel_scan (\<lambda>x. item_data x c = k) R 0 None = Some i" by simp
  from sel_scan_0_Some [OF this] have i: "i < length R" "item_data (R ! i) c = k" by simp_all
  with Some cur show ?thesis by simp
qed

lemma ServerListWidget_update_eq:
  "ServerListWidget_update network servers protocol use_tor w =
     w\<lparr> tw_rows := server_rows network servers protocol use_tor,
        tw_current := sel_scan (\<lambda>x. item_data x 2 = current_key 2 w)
                        (server_rows network servers protocol use_tor) 0 None,
        tw_indentation := 0,
        tw_stretch_last_section := False,
        tw_section_resize_mode := (tw_section_resize_mode w)
           (0 \<mapsto> ResizeToContents, 1 \<mapsto> Stretch, 2 \<mapsto> ResizeToContents, 3 \<mapsto> ResizeToContents) \<rparr>"
  by (simp add: ServerListWidget_update_def Let_def server_fold clear_def server_rows_def
      current_key_def restore_selection_def setSectionResizeMode_def split: option.splits)

lemma server_rows_keys: "x \<in> set (server_rows network servers protocol use_tor) \<Longrightarrow> item_data x 2 \<noteq> None"
  by (auto simp: server_rows_def server_entry_item_def item_data_server_item)

lemma ServerListWidget_update_idem:
  "ServerListWidget_update network servers protocol use_tor
     (ServerListWidget_update network servers protocol use_tor w)
   = ServerListWidget_update network servers protocol use_tor w"
proof -
  let ?R = "server_rows network servers protocol use_tor"
  let ?cur = "sel_scan (\<lambda>x. item_data x 2 = current_key 2 w) ?R 0 None"
  let ?u = "ServerListWidget_update network servers protocol use_tor w"
  have rows: "tw_rows ?u = ?R" and cur: "tw_current ?u = ?cur"
    by (simp_all add: ServerListWidget_update_eq)
  have key: "current_key 2 ?u =
      (case ?cur of None \<Rightarrow> None | Some i \<Rightarrow> if i < length ?R then item_data (?R ! i) 2 else None)"
    by (simp add: current_key_def currentItem_def rows cur split: option.splits)
  have again: "sel_scan (\<lambda>x. item_data x 2 = current_key 2 ?u) ?R 0 None = ?cur"
    unfolding key by (rule rescan_idem [OF server_rows_keys refl])
  show ?thesis
    by (subst ServerListWidget_update_eq [of _ _ _ _ ?u], simp only: again,
        simp add: ServerListWidget_update_eq)
qed

text \<open>
  Claim C10. With \<open>use_tor\<close> false, the rows of the server list are exactly the rows of
  the servers, in sorted order, whose host does not end in \<open>.onion\<close> (in any letter
  case) and that have a non-empty port for the current protocol: every onion server is
  left out. With \<open>use_tor\<close> true the rows are those of all servers that have a port
  for the protocol, onion servers included. So the non-onion servers with a port are
  listed whatever \<open>use_tor\<close> is.
\<close>

theorem server_list_onion_filter:
  "tw_rows (ServerListWidget_update network servers protocol False w)
     = map (\<lambda>(host, d). server_item network (is_whitelist_only network) protocol host d (the (d protocol)))
         (filter (\<lambda>(host, d). \<not> endswith (str_lower host) ''.onion''
                    \<and> d protocol \<noteq> None \<and> d protocol \<noteq> Some [])
            (sort_key fst servers))
   \<and> tw_rows (ServerListWidget_update network servers protocol True w)
     = map (\<lambda>(host, d). server_item network (is_whitelist_only network) protocol host d (the (d protocol)))
         (filter (\<lambda>(host, d). d protocol \<noteq> None \<and> d protocol \<noteq> Some [])
            (sort_key fst servers))"
proof -
  have a: "server_listed protocol False = (\<lambda>(host, d). \<not> endswith (str_lower host) ''.onion''
                    \<and> d protocol \<noteq> None \<and> d protocol \<noteq> Some [])"
    by (auto simp: server_listed_def fun_eq_iff split: option.splits)
  have b: "server_listed protocol True = (\<lambda>(host, d). d protocol \<noteq> None \<and> d protocol \<noteq> Some [])"
    by (auto simp: server_listed_def fun_eq_iff split: option.splits)
  have c: "server_entry_item network (is_whitelist_only network) protocol
     = (\<lambda>(host, d). server_item network (is_whitelist_only network) protocol host d (the (d protocol)))"
    by (auto simp: server_entry_item_def fun_eq_iff)
  show ?thesis
    by (simp add: ServerListWidget_update_eq server_rows_def a b c)
qed

theorem server_list_onion_filter_witness:
  "map (\<lambda>x. item_data x 2) (tw_rows (ServerListWidget_update open_network two_servers ''s'' False empty_widget))
     = [Some (PyStr ''b.org:50002:s'')]
   \<and> map (\<lambda>x. item_data x 2) (tw_rows (ServerListWidget_update open_network two_servers ''s'' True empty_widget))
     = [Some (PyStr ''b.org:50002:s''), Some (PyStr ''x.onion:50002:s'')]"
  using server_list_onion_filter [of open_network two_servers "''s''" empty_widget]
  by (simp add: two_servers_def open_network_def endswith_def str_lower_def lower_char_def
      suffix_to_prefix server_item_def item_data_def serialize_server_def Let_def)

lemma item_data_plain_item [simp]: "item_data (plain_item text key) 0 = Some (PyStr key)"
  by (simp add: item_data_def plain_item_def)

lemma current_key_rebuilt:
  assumes rows: "tw_rows u = R" and cur: "tw_current u = sel_scan P R 0 None"
    and key: "\<And>x. x \<in> set R \<Longrightarrow> P x \<Longrightarrow> item_data x c = k"
  shows "current_key c u = (if tw_current u = None then None else k)"
proof (cases "tw_current u")
  case None
  then show ?thesis by (simp add: current_key_def currentItem_def)
next
  case (Some i)
  with cur have "sel_scan P R 0 None = Some i" by simp
  from sel_scan_0_Some [OF this] have i: "i < length R" "P (R ! i)" by simp_all
  then have "item_data (R ! i) c = k" by (intro key) simp_all
  with Some i rows show ?thesis by (simp add: current_key_def currentItem_def)
qed

lemma rescan_idem_gen:
  assumes key: "\<And>x. x \<in> set R \<Longrightarrow> Pk s x \<Longrightarrow> item_data x c = s"
    and none: "\<And>x. x \<in> set R \<Longrightarrow> \<not> Pk None x"
    and rows: "tw_rows u = R" and cur: "tw_current u = sel_scan (Pk s) R 0 None"
  shows "sel_scan (Pk (current_key c u)) R 0 None = tw_current u"
proof -
  have k: "current_key c u = (if tw_current u = None then None else s)"
    by (rule current_key_rebuilt [OF rows cur key])
  show ?thesis
  proof (cases "tw_current u")
    case None
    with k have "current_key c u = None" by simp
    with None none show ?thesis by (simp add: sel_scan_none)
  next
    case (Some i)
    with k have "current_key c u = s" by simp
    with cur show ?thesis by simp
  qed
qed

lemma restored_key:
  assumes rows: "tw_rows u = R" and cur: "tw_current u = sel_scan P R 0 None"
    and key: "\<And>x. x \<in> set R \<Longrightarrow> P x \<Longrightarrow> item_data x c = k"
    and ex: "\<exists>x\<in>set R. P x"
  shows "current_key c u = k"
proof -
  from sel_scan_exists [OF ex, of 0 None] cur have "tw_current u \<noteq> None" by auto
  with current_key_rebuilt [OF rows cur key] show ?thesis by simp
qed

lemma post_office_fold:
  "0 < n \<Longrightarrow> fold (post_office_loop_body n sel) l (w, r) =
     (w\<lparr> tw_rows := tw_rows w @ post_office_rows l \<rparr>,
      sel_scan (\<lambda>x. item_data x 0 = sel) (post_office_rows l) (length (tw_rows w)) r)"
  by (induction l arbitrary: w r)
     (simp_all add: post_office_rows_def post_office_loop_body_def addTopLevelItem_def Let_def)

lemma PostOfficeServeListWidget_update_eq:
  "PostOfficeServeListWidget_update l w =
     w\<lparr> tw_rows := post_office_rows l,
        tw_current := sel_scan (\<lambda>x. item_data x 0 = current_key 0 w) (post_office_rows l) 0 None,
        tw_stretch_last_section := False,
        tw_section_resize_mode := (tw_section_resize_mode w)(0 \<mapsto> Stretch) \<rparr>"
proof (cases "l = []")
  case True
  then show ?thesis
    by (simp add: PostOfficeServeListWidget_update_def Let_def clear_def post_office_rows_def
        restore_selection_def setSectionResizeMode_def)
next
  case False
  then have "0 < length l" by simp
  then show ?thesis
    by (simp add: PostOfficeServeListWidget_update_def Let_def post_office_fold clear_def
        current_key_def restore_selection_def setSectionResizeMode_def split: option.splits)
qed

lemma post_office_rows_keys: "x \<in> set (post_office_rows l) \<Longrightarrow> item_data x 0 \<noteq> None"
  by (auto simp: post_office_rows_def)

lemma PostOfficeServeListWidget_update_idem:
  "PostOfficeServeListWidget_update l (PostOfficeServeListWidget_update l w)
   = PostOfficeServeListWidget_update l w"
proof -
  let ?u = "PostOfficeServeListWidget_update l w"
  have "sel_scan (\<lambda>x. item_data x 0 = current_key 0 ?u) (post_office_rows l) 0 None = tw_current ?u"
    by (rule rescan_idem_gen [where Pk = "\<lambda>s x. item_data x 0 = s" and s = "current_key 0 w"])
       (simp_all add: PostOfficeServeListWidget_update_eq post_office_rows_keys)
  then show ?thesis
    by (subst PostOfficeServeListWidget_update_eq [of _ ?u])
       (simp add: PostOfficeServeListWidget_update_eq)
qed

lemma gs_fold:
  "0 < n \<Longrightarrow> fold (gs_loop_body n gs_host sel) l (w, r) =
     (w\<lparr> tw_rows := tw_rows w @ gs_rows l gs_host \<rparr>,
      sel_scan (\<lambda>x. item_data x 0 = sel) (gs_rows l gs_host) (length (tw_rows w)) r)"
  by (induction l arbitrary: w r)
     (simp_all add: gs_rows_def gs_loop_body_def addTopLevelItem_def Let_def split: prod.splits)

lemma SlpGsServeListWidget_update_eq:
  "SlpGsServeListWidget_update l gs_host w =
     w\<lparr> tw_rows := gs_rows l gs_host,
        tw_current := sel_scan (\<lambda>x. item_data x 0 = current_key 0 w) (gs_rows l gs_host) 0 None,
        tw_stretch_last_section := False,
        tw_section_resize_mode := (tw_section_resize_mode w)(0 \<mapsto> Stretch) \<rparr>"
proof (cases "l = []")
  case True
  then show ?thesis
    by (simp add: SlpGsServeListWidget_update_def Let_def clear_def gs_rows_def
        restore_selection_def setSectionResizeMode_def)
next
  case False
  then have "0 < length l" by simp
  then show ?thesis
    by (simp add: SlpGsServeListWidget_update_def Let_def gs_fold clear_def
        current_key_def restore_selection_def setSectionResizeMode_def split: option.splits)
qed

lemma gs_rows_keys: "x \<in> set (gs_rows l gs_host) \<Longrightarrow> item_data x 0 \<noteq> None"
  by (auto simp: gs_rows_def)

lemma SlpGsServeListWidget_update_idem:
  "SlpGsServeListWidget_update l gs_host (SlpGsServeListWidget_update l gs_host w)
   = SlpGsServeListWidget_update l gs_host w"
proof -
  let ?u = "SlpGsServeListWidget_update l gs_host w"
  have "sel_scan (\<lambda>x. item_data x 0 = current_key 0 ?u) (gs_rows l gs_host) 0 None = tw_current ?u"
    by (rule rescan_idem_gen [where Pk = "\<lambda>s x. item_data x 0 = s" and s = "current_key 0 w"])
       (simp_all add: SlpGsServeListWidget_update_eq gs_rows_keys)
  then show ?thesis
    by (subst SlpGsServeListWidget_update_eq [of _ _ ?u])
       (simp add: SlpGsServeListWidget_update_eq)
qed

lemma slpdb_fold:
  "0 < n \<Longrightarrow> fold (slpdb_loop_body n) l w = w\<lparr> tw_rows := tw_rows w @ post_office_rows l \<rparr>"
  by (induction l arbitrary: w)
     (simp_all add: post_office_rows_def slpdb_loop_body_def addTopLevelItem_def)

lemma SlpSLPDBServeListWidget_update_eq:
  "SlpSLPDBServeListWidget_update l w =
     w\<lparr> tw_rows := post_office_rows l,
        tw_current := None,
        tw_stretch_last_section := False,
        tw_section_resize_mode := (tw_section_resize_mode w)(0 \<mapsto> Stretch) \<rparr>"
proof (cases "l = []")
  case True
  then show ?thesis
    by (simp add: SlpSLPDBServeListWidget_update_def Let_def clear_def post_office_rows_def
        setSectionResizeMode_def)
next
  case False
  then have "0 < length l" by simp
  then show ?thesis
    by (simp add: SlpSLPDBServeListWidget_update_def Let_def slpdb_fold clear_def
        setSectionResizeMode_def)
qed

lemma SlpSLPDBServeListWidget_update_idem:
  "SlpSLPDBServeListWidget_update l (SlpSLPDBServeListWidget_update l w)
   = SlpSLPDBServeListWidget_update l w"
  by (simp add: SlpSLPDBServeListWidget_update_eq)

lemma item_data_node_item [simp]:
  "item_data (node_item network servers level i) 0 = Some (PyInt 0)"
  "item_data (node_item network servers level i) (Suc 0) = Some (PyStr (if_server i))"
  by (simp_all add: item_data_def node_item_def Let_def)

lemma item_data_chain_item [simp]:
  "item_data (chain_item b) 0 = Some (PyInt 1)"
  "item_data (chain_item b) (Suc 0) = Some (PyInt (bc_base_height b))"
  by (simp_all add: item_data_def chain_item_def)

lemma nodes_rows_keys: "x \<in> set (nodes_rows network servers) \<Longrightarrow> item_data x (Suc 0) \<noteq> None"
  by (auto simp: nodes_rows_def chain_rows_def split: if_splits)

lemma nodes_inner_fold:
  "fold (nodes_inner_body network servers level sel) items (w, r) =
     (w\<lparr> tw_rows := tw_rows w @ map (node_item network servers level) items \<rparr>,
      sel_scan (node_selected sel) (map (node_item network servers level) items)
        (length (tw_rows w)) r)"
proof (induction items arbitrary: w r)
  case Nil
  show ?case by simp
next
  case (Cons i items)
  have "(Some (PyStr (if_server i)) = sel) = node_selected sel (node_item network servers level i)"
    by (auto simp: node_selected_def)
  then have step: "nodes_inner_body network servers level sel i (w, r) =
      (w\<lparr> tw_rows := tw_rows w @ [node_item network servers level i] \<rparr>,
       if node_selected sel (node_item network servers level i) then Some (length (tw_rows w))
       else r)"
    by (simp add: nodes_inner_body_def Let_def addTopLevelItem_def)
  show ?case
    by (simp add: step Cons.IH)
qed

lemma nodes_loop_ok:
  "list_all (\<lambda>entry. blockchains network (fst entry) \<noteq> None) cs \<Longrightarrow>
   nodes_loop network servers n sel cs (w, r) =
     Inr (w\<lparr> tw_rows := tw_rows w @ concat (map (chain_rows network servers n) cs) \<rparr>,
          sel_scan (node_selected sel) (concat (map (chain_rows network servers n) cs))
            (length (tw_rows w)) r)"
proof (induction cs arbitrary: w r)
  case Nil
  show ?case by simp
next
  case (Cons c cs)
  obtain k items where c: "c = (k, items)" by (cases c)
  from Cons.prems c obtain b where b: "blockchains network k = Some b" by auto
  from Cons.prems have rest: "list_all (\<lambda>entry. blockchains network (fst entry) \<noteq> None) cs" by simp
  have hdr: "\<not> node_selected sel (chain_item b)" by (simp add: node_selected_def)
  show ?case
    by (simp add: c b nodes_inner_fold Cons.IH [OF rest] chain_rows_def addTopLevelItem_def
        sel_scan_append hdr add.commute)
qed

lemma nodes_loop_err:
  "\<not> list_all (\<lambda>entry. blockchains network (fst entry) \<noteq> None) cs \<Longrightarrow>
   nodes_loop network servers n sel cs acc = Inl KeyError"
proof (induction cs arbitrary: acc)
  case Nil
  then show ?case by simp
next
  case (Cons c cs)
  obtain k items where c: "c = (k, items)" by (cases c)
  obtain w r where acc: "acc = (w, r)" by (cases acc)
  show ?case
  proof (cases "blockchains network k")
    case None
    then show ?thesis by (simp add: c)
  next
    case (Some b)
    with Cons.prems c have "\<not> list_all (\<lambda>entry. blockchains network (fst entry) \<noteq> None) cs" by simp
    from Cons.IH [OF this] Some show ?thesis by (simp add: c acc)
  qed
qed

lemma NodesListWidget_update_eq:
  "NodesListWidget_update network servers w =
     (if chains_known network then
        Inr (w\<lparr> tw_rows := nodes_rows network servers,
                tw_current := sel_scan (node_selected (current_key 1 w)) (nodes_rows network servers) 0 None,
                tw_stretch_last_section := False,
                tw_section_resize_mode := (tw_section_resize_mode w)
                  (0 \<mapsto> Stretch, 1 \<mapsto> ResizeToContents, 2 \<mapsto> ResizeToContents) \<rparr>)
      else Inl KeyError)"
proof (cases "chains_known network")
  case True
  then have ok: "list_all (\<lambda>entry. blockchains network (fst entry) \<noteq> None) (get_blockchains network)"
    by (simp add: chains_known_def)
  show ?thesis
    by (simp add: True NodesListWidget_update_def Let_def nodes_loop_ok [OF ok] clear_def
        nodes_rows_def current_key_def restore_selection_def setSectionResizeMode_def
        split: option.splits)
next
  case False
  then have "\<not> list_all (\<lambda>entry. blockchains network (fst entry) \<noteq> None) (get_blockchains network)"
    by (simp add: chains_known_def)
  from nodes_loop_err [OF this] False show ?thesis
    by (simp add: NodesListWidget_update_def Let_def)
qed

lemma NodesListWidget_update_idem:
  assumes "NodesListWidget_update network servers w = Inr u"
  shows "NodesListWidget_update network servers u = Inr u"
proof -
  from assms have known: "chains_known network"
    by (simp add: NodesListWidget_update_eq split: if_splits)
  let ?R = "nodes_rows network servers"
  from assms known have u: "u = w\<lparr> tw_rows := ?R,
                tw_current := sel_scan (node_selected (current_key 1 w)) ?R 0 None,
                tw_stretch_last_section := False,
                tw_section_resize_mode := (tw_section_resize_mode w)
                  (0 \<mapsto> Stretch, 1 \<mapsto> ResizeToContents, 2 \<mapsto> ResizeToContents) \<rparr>"
    by (simp add: NodesListWidget_update_eq)
  have "sel_scan (node_selected (current_key 1 u)) ?R 0 None = tw_current u"
    by (rule rescan_idem_gen [where Pk = node_selected and s = "current_key 1 w"])
       (auto simp: u node_selected_def dest: nodes_rows_keys)
  then show ?thesis
    by (subst NodesListWidget_update_eq) (simp add: known, simp add: u)
qed

lemma item_data_job_item [simp]:
  "item_data (job_item humanbytes enabled k j) 0 = Some (PyStr k)"
  by (simp add: item_data_def job_item_def Let_def)

lemma add_job_fold:
  "fold (add_job_item sel) l w =
     w\<lparr> tw_rows := tw_rows w @ l,
        tw_current := sel_scan (job_selected sel) l (length (tw_rows w)) (tw_current w) \<rparr>"
proof (induction l arbitrary: w)
  case Nil
  show ?case by simp
next
  case (Cons x l)
  have step: "add_job_item sel x w =
      w\<lparr> tw_rows := tw_rows w @ [x],
         tw_current := (if job_selected sel x then Some (length (tw_rows w)) else tw_current w) \<rparr>"
    by (simp add: add_job_item_def setCurrentSelectedItem_def addTopLevelItem_def)
  show ?case
    by (simp add: step Cons.IH)
qed

lemma SlpSearchJobListWidget_update_raises:
  assumes "setChecked_arg (config_get conf ''slp_validator_graphsearch_enabled'' (PyBool False)) = Inl e"
  shows "SlpSearchJobListWidget_update humanbytes conf mgr v = Inl e"
  using assms by (simp add: SlpSearchJobListWidget_update_def)

lemma SlpSearchJobListWidget_update_eq:
  assumes "setChecked_arg (config_get conf ''slp_validator_graphsearch_enabled'' (PyBool False)) = Inr cb"
  shows "SlpSearchJobListWidget_update humanbytes conf mgr v =
     Inr \<lparr> jv_tree = (jv_tree v)
         \<lparr> tw_rows := jobs_rows humanbytes mgr,
           tw_current := jobs_current (job_selected (current_key 0 (jv_tree v)))
                           (fst (jobs_split humanbytes mgr)) (jobs_listed humanbytes mgr),
           tw_stretch_last_section := True,
           tw_section_resize_mode := (tw_section_resize_mode (jv_tree v))
             (0 \<mapsto> ResizeToContents, 1 \<mapsto> ResizeToContents, 2 \<mapsto> ResizeToContents,
              3 \<mapsto> ResizeToContents) \<rparr>,
       jv_slp_gs_enable_cb = cb,
       jv_total_data_txt = humanbytes (bytes_downloaded mgr) \<rparr>"
proof -
  obtain wk comp oth where split: "jobs_split humanbytes mgr = (wk, comp, oth)"
    by (cases "jobs_split humanbytes mgr")
  then have f: "fold (jobs_loop_body humanbytes (gs_enabled mgr) (length (jobs_copy mgr)))
                  (jobs_copy mgr) (None, [], []) = (wk, comp, oth)"
    by (simp add: jobs_split_def)
  show ?thesis
    by (cases wk)
       (simp_all add: SlpSearchJobListWidget_update_def assms Let_def f split jobs_rows_def
          jobs_listed_def jobs_current_def add_job_fold clear_def current_key_def
          setCurrentSelectedItem_def insertTopLevelItem0_def setSectionResizeMode_def
          sel_scan_append)
qed

lemma SlpSearchJobListWidget_update_Inr:
  assumes "SlpSearchJobListWidget_update humanbytes conf mgr v = Inr u"
  shows "\<exists>cb. setChecked_arg (config_get conf ''slp_validator_graphsearch_enabled'' (PyBool False)) = Inr cb"
  using assms by (auto simp: SlpSearchJobListWidget_update_def split: sum.splits)

lemma jobs_current_Some:
  assumes "jobs_current P wk l = Some i"
  shows "i < length (case wk of None \<Rightarrow> l | Some x \<Rightarrow> x # l)
         \<and> P ((case wk of None \<Rightarrow> l | Some x \<Rightarrow> x # l) ! i)"
proof (cases wk)
  case None
  with assms show ?thesis by (simp add: jobs_current_def sel_scan_0_Some)
next
  case (Some x)
  show ?thesis
  proof (cases "P x")
    case True
    with assms Some show ?thesis by (simp add: jobs_current_def)
  next
    case False
    with assms Some obtain j where j: "sel_scan P l 0 None = Some j" "i = Suc j"
      by (auto simp: jobs_current_def)
    from sel_scan_0_Some [OF j(1)] j(2) Some show ?thesis by simp
  qed
qed

lemma jobs_current_none:
  assumes "\<And>x. x \<in> set (case wk of None \<Rightarrow> l | Some x \<Rightarrow> x # l) \<Longrightarrow> \<not> P x"
  shows "jobs_current P wk l = None"
proof (cases wk)
  case None
  with assms show ?thesis by (simp add: jobs_current_def sel_scan_none)
next
  case (Some x)
  with assms have "\<not> P x" "\<And>y. y \<in> set l \<Longrightarrow> \<not> P y" by simp_all
  with Some show ?thesis by (simp add: jobs_current_def sel_scan_none)
qed

lemma jobs_current_exists:
  assumes "\<exists>x\<in>set (case wk of None \<Rightarrow> l | Some x \<Rightarrow> x # l). P x"
  shows "jobs_current P wk l \<noteq> None"
proof (cases wk)
  case None
  with assms sel_scan_exists [of l P 0 None] show ?thesis by (auto simp: jobs_current_def)
next
  case (Some x)
  show ?thesis
  proof (cases "P x")
    case True
    with Some show ?thesis by (simp add: jobs_current_def)
  next
    case False
    with assms Some have "\<exists>y\<in>set l. P y" by simp
    from sel_scan_exists [OF this, of 0 None] False Some show ?thesis
      by (auto simp: jobs_current_def)
  qed
qed

lemma job_selected_key: "job_selected s x \<Longrightarrow> item_data x 0 = s"
  by (simp add: job_selected_def split: option.splits)

lemma job_selected_None [simp]: "\<not> job_selected None x"
  by (simp add: job_selected_def)

lemma jobs_current_key:
  assumes rows: "tw_rows u = jobs_rows humanbytes mgr"
    and cur: "tw_current u = jobs_current (job_selected s) (fst (jobs_split humanbytes mgr))
                               (jobs_listed humanbytes mgr)"
  shows "current_key 0 u = (if tw_current u = None then None else s)"
proof (cases "tw_current u")
  case None
  then show ?thesis by (simp add: current_key_def currentItem_def)
next
  case (Some i)
  with cur have "jobs_current (job_selected s) (fst (jobs_split humanbytes mgr))
                   (jobs_listed humanbytes mgr) = Some i" by simp
  from jobs_current_Some [OF this]
  have "i < length (jobs_rows humanbytes mgr) \<and> job_selected s (jobs_rows humanbytes mgr ! i)"
    by (simp add: jobs_rows_def)
  with Some rows show ?thesis
    by (simp add: current_key_def currentItem_def job_selected_key)
qed

lemma SlpSearchJobListWidget_update_idem:
  assumes upd: "SlpSearchJobListWidget_update humanbytes conf mgr v = Inr u"
  shows "SlpSearchJobListWidget_update humanbytes conf mgr u = Inr u"
proof -
  let ?wk = "fst (jobs_split humanbytes mgr)"
  let ?l = "jobs_listed humanbytes mgr"
  let ?s = "current_key 0 (jv_tree v)"
  from SlpSearchJobListWidget_update_Inr [OF upd] obtain cb
    where cb: "setChecked_arg (config_get conf ''slp_validator_graphsearch_enabled'' (PyBool False)) = Inr cb"
    by blast
  from upd have u: "u = \<lparr> jv_tree = (jv_tree v)
         \<lparr> tw_rows := jobs_rows humanbytes mgr,
           tw_current := jobs_current (job_selected ?s) ?wk ?l,
           tw_stretch_last_section := True,
           tw_section_resize_mode := (tw_section_resize_mode (jv_tree v))
             (0 \<mapsto> ResizeToContents, 1 \<mapsto> ResizeToContents, 2 \<mapsto> ResizeToContents,
              3 \<mapsto> ResizeToContents) \<rparr>,
       jv_slp_gs_enable_cb = cb,
       jv_total_data_txt = humanbytes (bytes_downloaded mgr) \<rparr>"
    by (simp add: SlpSearchJobListWidget_update_eq [OF cb])
  have rows: "tw_rows (jv_tree u) = jobs_rows humanbytes mgr"
    and cur: "tw_current (jv_tree u) = jobs_current (job_selected ?s) ?wk ?l"
    by (simp_all add: u)
  have key: "current_key 0 (jv_tree u) = (if tw_current (jv_tree u) = None then None else ?s)"
    by (rule jobs_current_key [OF rows cur])
  have again: "jobs_current (job_selected (current_key 0 (jv_tree u))) ?wk ?l = tw_current (jv_tree u)"
  proof (cases "tw_current (jv_tree u)")
    case None
    with key have "current_key 0 (jv_tree u) = None" by simp
    with None show ?thesis by (simp add: jobs_current_none)
  next
    case (Some i)
    with key have "current_key 0 (jv_tree u) = ?s" by simp
    with cur show ?thesis by simp
  qed
  show ?thesis
    by (subst SlpSearchJobListWidget_update_eq [OF cb]) (simp only: again, simp add: u)
qed

lemma server_restore:
  assumes "current_key 2 w = Some k"
    and "\<exists>x\<in>set (tw_rows (ServerListWidget_update network servers protocol use_tor w)).
           item_data x 2 = Some k"
  shows "current_key 2 (ServerListWidget_update network servers protocol use_tor w) = Some k"
  using assms
  by (intro restored_key [where P = "\<lambda>x. item_data x 2 = Some k"
        and R = "server_rows network servers protocol use_tor"])
     (simp_all add: ServerListWidget_update_eq)

lemma post_office_restore:
  assumes "current_key 0 w = Some k"
    and "\<exists>x\<in>set (tw_rows (PostOfficeServeListWidget_update l w)). item_data x 0 = Some k"
  shows "current_key 0 (PostOfficeServeListWidget_update l w) = Some k"
  using assms
  by (intro restored_key [where P = "\<lambda>x. item_data x 0 = Some k" and R = "post_office_rows l"])
     (simp_all add: PostOfficeServeListWidget_update_eq)

lemma gs_restore:
  assumes "current_key 0 w = Some k"
    and "\<exists>x\<in>set (tw_rows (SlpGsServeListWidget_update l gs_host w)). item_data x 0 = Some k"
  shows "current_key 0 (SlpGsServeListWidget_update l gs_host w) = Some k"
  using assms
  by (intro restored_key [where P = "\<lambda>x. item_data x 0 = Some k" and R = "gs_rows l gs_host"])
     (simp_all add: SlpGsServeListWidget_update_eq)

lemma nodes_restore:
  assumes upd: "NodesListWidget_update network servers w = Inr u"
    and key: "current_key 1 w = Some k"
    and ex: "\<exists>x\<in>set (tw_rows u). item_data x 0 = Some (PyInt 0) \<and> item_data x 1 = Some k"
  shows "current_key 1 u = Some k"
proof -
  from upd have known: "chains_known network"
    by (simp add: NodesListWidget_update_eq split: if_splits)
  with upd have u: "u = w\<lparr> tw_rows := nodes_rows network servers,
                tw_current := sel_scan (node_selected (current_key 1 w)) (nodes_rows network servers) 0 None,
                tw_stretch_last_section := False,
                tw_section_resize_mode := (tw_section_resize_mode w)
                  (0 \<mapsto> Stretch, 1 \<mapsto> ResizeToContents, 2 \<mapsto> ResizeToContents) \<rparr>"
    by (simp add: NodesListWidget_update_eq)
  show ?thesis
    using ex key
    by (intro restored_key [where P = "node_selected (Some k)" and R = "nodes_rows network servers"])
       (simp_all add: u node_selected_def)
qed

lemma jobs_restore:
  assumes upd: "SlpSearchJobListWidget_update humanbytes conf mgr v = Inr u"
    and key: "current_key 0 (jv_tree v) = Some k" and tr: "truthy k"
    and ex: "\<exists>x\<in>set (tw_rows (jv_tree u)). item_data x 0 = Some k"
  shows "current_key 0 (jv_tree u) = Some k"
proof -
  from SlpSearchJobListWidget_update_Inr [OF upd] obtain cb
    where cb: "setChecked_arg (config_get conf ''slp_validator_graphsearch_enabled'' (PyBool False)) = Inr cb"
    by blast
  from upd have rows: "tw_rows (jv_tree u) = jobs_rows humanbytes mgr"
    and cur: "tw_current (jv_tree u)
                = jobs_current (job_selected (Some k)) (fst (jobs_split humanbytes mgr))
                    (jobs_listed humanbytes mgr)"
    by (auto simp: SlpSearchJobListWidget_update_eq [OF cb] key)
  from ex tr have "\<exists>x\<in>set (case fst (jobs_split humanbytes mgr) of
                               None \<Rightarrow> jobs_listed humanbytes mgr
                             | Some x \<Rightarrow> x # jobs_listed humanbytes mgr). job_selected (Some k) x"
    by (simp add: rows jobs_rows_def job_selected_def)
  from jobs_current_exists [OF this] cur have "tw_current (jv_tree u) \<noteq> None" by simp
  with jobs_current_key [OF rows cur] show ?thesis by simp
qed

lemma slpdb_selection_cleared: "tw_current (SlpSLPDBServeListWidget_update l w) = None"
  by (simp add: SlpSLPDBServeListWidget_update_eq)

text \<open>
  The job list does not show every job of the snapshot: \<open>working_item\<close> is one
  variable, so of several jobs found downloading only the last one gets a row. With two
  downloading jobs \<open>w1\<close> and \<open>w2\<close> the rebuilt list has the single row of \<open>w2\<close>.
  And \<open>update\<close> ends in \<open>TypeError\<close>, with the list untouched, when the stored
  value of \<open>slp_validator_graphsearch_enabled\<close> is a string or \<open>None\<close>.
\<close>

lemma two_downloads_split:
  "jobs_split humanbytes two_downloads_mgr
     = (Some (job_item humanbytes True ''w2'' sample_job), [], [])"
  by (simp add: jobs_split_def two_downloads_mgr_def jobs_loop_body_def job_status_def
      sample_job_def Let_def)

lemma jobs_last_downloading_only:
  "map (\<lambda>entry. job_status (gs_enabled two_downloads_mgr) (snd entry)) (jobs_copy two_downloads_mgr)
     = [''Downloading...'', ''Downloading...'']
   \<and> \<not> isl (SlpSearchJobListWidget_update humanbytes gs_on_config two_downloads_mgr empty_jobs_view)
   \<and> tw_rows (jv_tree (projr (SlpSearchJobListWidget_update humanbytes gs_on_config
                                 two_downloads_mgr empty_jobs_view)))
       = [job_item humanbytes True ''w2'' sample_job]"
proof -
  have cb: "setChecked_arg (config_get gs_on_config ''slp_validator_graphsearch_enabled'' (PyBool False))
              = Inr True"
    by (simp add: gs_on_config_def config_get_def)
  have a: "map (\<lambda>entry. job_status (gs_enabled two_downloads_mgr) (snd entry))
             (jobs_copy two_downloads_mgr) = [''Downloading...'', ''Downloading...'']"
    by (simp add: two_downloads_mgr_def job_status_def sample_job_def)
  have b: "jobs_rows humanbytes two_downloads_mgr = [job_item humanbytes True ''w2'' sample_job]"
    by (simp add: jobs_rows_def jobs_listed_def two_downloads_split)
  from a b show ?thesis
    by (simp add: SlpSearchJobListWidget_update_eq [OF cb])
qed

lemma jobs_update_type_error:
  "SlpSearchJobListWidget_update humanbytes [''slp_validator_graphsearch_enabled'' \<mapsto> PyStr ''true'']
     mgr v = Inl TypeError"
  by (simp add: SlpSearchJobListWidget_update_def config_get_def)

text \<open>
  Claim C9 does not hold of the code. The claim says that every renderer captures the
  key of the current selection and restores the selection by key when the key is still
  present. \<open>SlpSLPDBServeListWidget.update\<close> reads no selection and sets none, where
  each of the five other renderers does both: with the endpoint
  \<open>https://slpdb.example\<close> selected and still in the snapshot, the rebuilt SLPDB list
  shows that endpoint but has no current item. \<open>PostOfficeServeListWidget.update\<close>,
  which builds the same rows with the selection handling, keeps the endpoint selected on
  the same widget and snapshot.
\<close>

theorem slpdb_selection_not_restored:
  "current_key 0 selected_widget = Some (PyStr ''https://slpdb.example'')
   \<and> tw_rows (SlpSLPDBServeListWidget_update [''https://slpdb.example''] selected_widget)
       = [plain_item ''https://slpdb.example'' ''https://slpdb.example'']
   \<and> item_data (tw_rows (SlpSLPDBServeListWidget_update [''https://slpdb.example''] selected_widget) ! 0) 0
       = Some (PyStr ''https://slpdb.example'')
   \<and> tw_current (SlpSLPDBServeListWidget_update [''https://slpdb.example''] selected_widget) = None
   \<and> current_key 0 (SlpSLPDBServeListWidget_update [''https://slpdb.example''] selected_widget) = None
   \<and> tw_rows (PostOfficeServeListWidget_update [''https://slpdb.example''] selected_widget)
       = [plain_item ''https://slpdb.example'' ''https://slpdb.example'']
   \<and> tw_current (PostOfficeServeListWidget_update [''https://slpdb.example''] selected_widget) = Some 0
   \<and> current_key 0 (PostOfficeServeListWidget_update [''https://slpdb.example''] selected_widget)
       = Some (PyStr ''https://slpdb.example'')"
  by (simp add: SlpSLPDBServeListWidget_update_eq PostOfficeServeListWidget_update_eq
      post_office_rows_def selected_widget_def empty_widget_def current_key_def currentItem_def)

section \<open>Properties of the life cycle\<close>

lemmas detector_defs = isRunning_def queue_at_def put_def log_event_def start_assign_def
  start_super_def stop_test_def stop_put_def stop_wait_def on_tor_port_changed_test_def
  on_tor_port_changed_put_def

lemma run_step_frame:
  "ui (run_step w s) = ui s" "returned (run_step w s) = returned s"
  "stopQ (run_step w s) = stopQ s" "length (heap (run_step w s)) = length (heap s)"
  "pending_kicks (run_step w s) = pending_kicks s"
  by (auto simp: run_step_def log_event_def Let_def
      split: thread_state.splits worker_pc.splits option.splits list.splits prod.splits)

lemma run_step_started: "thread s \<noteq> Not_started \<Longrightarrow> thread (run_step w s) \<noteq> Not_started"
  by (auto simp: run_step_def log_event_def Let_def
      split: thread_state.splits worker_pc.splits option.splits list.splits prod.splits)

lemma stop_invariant_step:
  assumes "step w s s'" and "stop_invariant s"
  shows "stop_invariant s'"
  using assms
proof (cases rule: step.cases)
  case worker
  then have run: "isRunning s" and s': "s' = run_step w s" by simp_all
  from run have started: "thread s \<noteq> Not_started" by (auto simp: isRunning_def)
  then have "thread s' \<noteq> Not_started" unfolding s' by (rule run_step_started)
  with assms(2) run started show ?thesis
    unfolding stop_invariant_def s' by (auto simp: run_step_frame)
qed (auto simp: stop_invariant_def detector_defs split: if_splits option.splits thread_state.splits)

lemma reachable_stop_invariant:
  assumes "reachable w net s"
  shows "stop_invariant s"
proof -
  from assms have "(step w)\<^sup>*\<^sup>* (new_detector net) s" by (simp add: reachable_def)
  then show ?thesis
  proof (induction rule: rtranclp_induct)
    case base
    show ?case by (simp add: stop_invariant_def new_detector_def isRunning_def)
  next
    case (step y z)
    then show ?case by (blast intro: stop_invariant_step)
  qed
qed

lemma run_step_exits_iff:
  assumes "stop_invariant s" and "isRunning s"
  shows "\<not> isRunning (run_step w s)
         \<longleftrightarrow> (\<exists>q rest. thread s = Running (In_get q) \<and> queue_at s q = None # rest)"
  using assms
  by (auto simp: stop_invariant_def run_step_def isRunning_def log_event_def Let_def
      split: thread_state.splits worker_pc.splits option.splits list.splits prod.splits)

lemma stop_enqueues_sentinel:
  assumes "stop_invariant s" and "isRunning s"
  shows "\<exists>q. stopQ s = Some q \<and> q < length (heap s)
           \<and> heap (stop_put (stop_test s)) = (heap s)[q := heap s ! q @ [None]]
           \<and> ui (stop_put (stop_test s)) = In_stop_wait"
proof -
  from assms have "stopQ s \<noteq> None" by (auto simp: stop_invariant_def isRunning_def)
  then obtain q where q: "stopQ s = Some q" by auto
  with assms have "q < length (heap s)" by (simp add: stop_invariant_def)
  with q assms(2) show ?thesis
    by (simp add: stop_put_def stop_test_def put_def)
qed

lemma run_step_events: "\<exists>more. events (run_step w s) = events s @ more"
  by (auto simp: run_step_def log_event_def Let_def
      split: thread_state.splits worker_pc.splits option.splits list.splits prod.splits)

lemma step_events:
  assumes "step w s s'"
  shows "\<exists>more. events s' = events s @ more"
  using assms
proof (cases rule: step.cases)
  case worker
  then show ?thesis using run_step_events [of w s] by simp
qed (auto simp: detector_defs split: option.splits)

lemma extends_kicked:
  assumes "extends s s'" and "kicked es k q s"
  shows "kicked es k q s'"
proof -
  from assms(1) have t: "thread s' = thread s" and e: "events s' = events s"
    and l: "length (heap s) \<le> length (heap s')"
    and h: "\<And>q. q < length (heap s) \<Longrightarrow> \<exists>more. heap s' ! q = heap s ! q @ more"
    by (simp_all add: extends_def)
  show ?thesis
  proof (cases "thread s = Running (In_get q) \<and> q < length (heap s)
                \<and> (\<exists>r. heap s ! q = Some k # r) \<and> events s = es")
    case True
    then obtain r where r: "heap s ! q = Some k # r" by blast
    from True h obtain more where "heap s' ! q = heap s ! q @ more" by blast
    with r have "heap s' ! q = Some k # (r @ more)" by simp
    with True t e l show ?thesis unfolding kicked_def by auto
  next
    case False
    with assms(2) t e show ?thesis unfolding kicked_def by auto
  qed
qed

lemma step_extends:
  assumes "step w s s'" and "isRunning s"
  shows "s' = run_step w s \<or> extends s s'"
  using assms
proof (cases rule: step.cases)
  case ui_start_assign
  then show ?thesis by (auto simp: extends_def start_assign_def nth_append)
next
  case ui_start_super
  with assms(2) show ?thesis
    by (auto simp: extends_def start_super_def isRunning_def split: thread_state.splits)
next
  case ui_stop_put
  then show ?thesis
    by (auto simp: extends_def stop_put_def put_def nth_list_update split: option.splits)
next
  case port_changed_put
  then show ?thesis
    by (auto simp: extends_def on_tor_port_changed_put_def put_def nth_list_update
        split: option.splits)
qed (auto simp: extends_def detector_defs split: option.splits)

lemma run_step_kicked:
  assumes "kicked es k q s" and "isRunning s"
  shows "kicked es k q (run_step w s)"
proof -
  from probe_ports_single [of w "probes s" "candidate_ports (det_network s)"]
  obtain sig where sig: "snd (probe_pass w (probes s) (det_network s)) = [sig]"
    by (auto simp: probe_pass_def)
  consider
      (a) "thread s = Running (In_get q)" "q < length (heap s)" "\<exists>r. heap s ! q = Some k # r"
          "events s = es"
    | (b) "thread s = Running In_msleep" "events s = es @ [Dequeued (Some k)]"
    | (c) "thread s = Running At_pass" "events s = es @ [Dequeued (Some k), Slept 250]"
    | (d) "\<exists>sig more. events s = es @ [Dequeued (Some k), Slept 250, Emitted sig] @ more"
    using assms(1) unfolding kicked_def by blast
  then show ?thesis
  proof cases
    case a
    then show ?thesis
      by (auto simp: kicked_def run_step_def queue_at_def log_event_def)
  next
    case b
    then show ?thesis by (simp add: kicked_def run_step_def log_event_def)
  next
    case c
    with sig show ?thesis
      by (auto simp: kicked_def run_step_def log_event_def split: prod.splits)
  next
    case d
    then obtain sg more where "events s = es @ [Dequeued (Some k), Slept 250, Emitted sg] @ more"
      by blast
    moreover obtain more' where "events (run_step w s) = events s @ more'"
      using run_step_events by blast
    ultimately have "events (run_step w s)
        = es @ [Dequeued (Some k), Slept 250, Emitted sg] @ (more @ more')"
      by simp
    then show ?thesis unfolding kicked_def by blast
  qed
qed

lemma kicked_running_or_passed:
  "kicked es k q s \<Longrightarrow>
     isRunning s \<or> (\<exists>sig more. events s = es @ [Dequeued (Some k), Slept 250, Emitted sig] @ more)"
  by (auto simp: kicked_def isRunning_def)

lemma kicked_step:
  assumes "step w s s'" and "kicked es k q s"
  shows "kicked es k q s'"
proof (cases "\<exists>sig more. events s = es @ [Dequeued (Some k), Slept 250, Emitted sig] @ more")
  case True
  then obtain sg more where "events s = es @ [Dequeued (Some k), Slept 250, Emitted sg] @ more"
    by blast
  moreover from step_events [OF assms(1)] obtain more' where "events s' = events s @ more'"
    by blast
  ultimately have "events s' = es @ [Dequeued (Some k), Slept 250, Emitted sg] @ (more @ more')"
    by simp
  then show ?thesis unfolding kicked_def by blast
next
  case False
  with kicked_running_or_passed [OF assms(2)] have run: "isRunning s" by blast
  from step_extends [OF assms(1) run] show ?thesis
  proof
    assume "s' = run_step w s"
    with run_step_kicked [OF assms(2) run] show ?thesis by simp
  next
    assume "extends s s'"
    then show ?thesis using assms(2) by (rule extends_kicked)
  qed
qed

lemma kicked_steps:
  assumes "(step w)\<^sup>*\<^sup>* s s'" and "kicked es k q s"
  shows "kicked es k q s'"
  using assms by (induction rule: rtranclp_induct) (auto intro: kicked_step)

lemma run_step_progress:
  assumes pend: "sentinel_pending s" and run: "isRunning s"
  shows "\<not> isRunning (run_step w s)
         \<or> (sentinel_pending (run_step w s) \<and> exit_measure (run_step w s) < exit_measure s)"
proof -
  from pend obtain q where q: "stopQ s = Some q" "q < length (heap s)" "None \<in> set (heap s ! q)"
    by (auto simp: sentinel_pending_def split: option.splits)
  from run obtain pc where pc: "thread s = Running pc"
    by (auto simp: isRunning_def split: thread_state.splits)
  show ?thesis
  proof (cases pc)
    case At_pass
    with pc q show ?thesis
      by (auto simp: run_step_def sentinel_pending_def exit_measure_def log_event_def Let_def
          split: prod.splits)
  next
    case At_get
    with pc q show ?thesis
      by (auto simp: run_step_def sentinel_pending_def exit_measure_def Let_def)
  next
    case In_msleep
    with pc q show ?thesis
      by (auto simp: run_step_def sentinel_pending_def exit_measure_def log_event_def Let_def)
  next
    case (In_get q')
    show ?thesis
    proof (cases "q' = q")
      case True
      from q(3) obtain x rest where xs: "heap s ! q = x # rest" by (cases "heap s ! q") auto
      show ?thesis
      proof (cases x)
        case None
        with pc In_get True q xs show ?thesis
          by (simp add: run_step_def queue_at_def isRunning_def log_event_def)
      next
        case (Some k)
        with q(3) xs have "None \<in> set rest" by auto
        with pc In_get True q xs Some show ?thesis
          by (simp add: run_step_def queue_at_def sentinel_pending_def exit_measure_def
              log_event_def Let_def)
      qed
    next
      case False
      show ?thesis
      proof (cases "queue_at s q'")
        case Nil
        with pc In_get False q show ?thesis
          by (simp add: run_step_def sentinel_pending_def exit_measure_def log_event_def Let_def)
      next
        case (Cons x rest)
        then have q': "q' < length (heap s)" "heap s ! q' = x # rest"
          by (auto simp: queue_at_def split: if_splits)
        show ?thesis
        proof (cases x)
          case None
          with pc In_get Cons show ?thesis
            by (simp add: run_step_def isRunning_def log_event_def)
        next
          case (Some k)
          with pc In_get False q Cons q' show ?thesis
            by (simp add: run_step_def sentinel_pending_def exit_measure_def log_event_def
                Let_def queue_at_def)
        qed
      qed
    qed
  qed
qed

lemma worker_exits:
  assumes "sentinel_pending s" and "isRunning s"
  shows "\<exists>n\<le>exit_measure s. \<not> isRunning ((run_step w ^^ n) s)"
  using assms
proof (induction "exit_measure s" arbitrary: s rule: less_induct)
  case less
  from run_step_progress [OF less.prems, of w]
  show ?case
  proof
    assume stop: "\<not> isRunning (run_step w s)"
    from run_step_progress [OF less.prems, of w] less.prems
    have "0 < exit_measure s"
      by (auto simp: exit_measure_def sentinel_pending_def isRunning_def Let_def
          split: option.splits thread_state.splits worker_pc.splits)
    with stop show ?thesis by (intro exI [of _ 1]) simp
  next
    assume a: "sentinel_pending (run_step w s)
               \<and> exit_measure (run_step w s) < exit_measure s"
    show ?thesis
    proof (cases "isRunning (run_step w s)")
      case False
      from a have "0 < exit_measure s" by simp
      with False show ?thesis by (intro exI [of _ 1]) simp
    next
      case True
      from less.hyps [of "run_step w s"] a True
      obtain n where n: "n \<le> exit_measure (run_step w s)"
        "\<not> isRunning ((run_step w ^^ n) (run_step w s))" by blast
      from n(2) have "\<not> isRunning ((run_step w ^^ Suc n) s)" by (simp add: funpow_swap1)
      moreover from n(1) a have "Suc n \<le> exit_measure s" by simp
      ultimately show ?thesis by blast
    qed
  qed
qed

lemma run_steps_are_steps: "(step w)\<^sup>*\<^sup>* s ((run_step w ^^ n) s)"
proof (induction n)
  case 0
  show ?case by simp
next
  case (Suc n)
  let ?t = "(run_step w ^^ n) s"
  have "(step w)\<^sup>*\<^sup>* ?t (run_step w ?t)"
  proof (cases "isRunning ?t")
    case True
    then have "step w ?t (run_step w ?t)" by (rule step.worker)
    then show ?thesis by blast
  next
    case False
    then have "run_step w ?t = ?t"
      by (auto simp: run_step_def isRunning_def split: thread_state.splits)
    then show ?thesis by simp
  qed
  with Suc.IH show ?case by simp
qed

lemma run_steps_ui: "ui ((run_step w ^^ n) s) = ui s"
  by (induction n) (simp_all add: run_step_frame)

lemma wait_invariant_step:
  assumes "step w s s'" and "wait_invariant s" and "stop_invariant s"
  shows "wait_invariant s'"
  using assms
proof (cases rule: step.cases)
  case worker
  then have run: "isRunning s" and s': "s' = run_step w s" by simp_all
  show ?thesis
  proof (cases "ui s = In_stop_wait")
    case True
    with assms(2) run have "sentinel_pending s" by (simp add: wait_invariant_def)
    from run_step_progress [OF this run, of w] show ?thesis
      by (auto simp: wait_invariant_def s')
  next
    case False
    then show ?thesis by (simp add: wait_invariant_def s' run_step_frame)
  qed
next
  case ui_stop_put
  with assms(3) show ?thesis
    by (auto simp: wait_invariant_def stop_invariant_def stop_put_def put_def sentinel_pending_def
        isRunning_def split: option.splits)
next
  case port_changed_put
  with assms(2) show ?thesis
    by (auto simp: wait_invariant_def on_tor_port_changed_put_def put_def sentinel_pending_def
        isRunning_def nth_list_update split: option.splits)
qed (auto simp: wait_invariant_def sentinel_pending_def detector_defs
      split: if_splits option.splits thread_state.splits)

lemma reachable_wait_invariant:
  assumes "reachable w net s"
  shows "wait_invariant s"
proof -
  from assms have "(step w)\<^sup>*\<^sup>* (new_detector net) s" by (simp add: reachable_def)
  then have "wait_invariant s \<and> stop_invariant s"
  proof (induction rule: rtranclp_induct)
    case base
    show ?case
      by (simp add: wait_invariant_def stop_invariant_def new_detector_def isRunning_def)
  next
    case (step y z)
    then show ?case by (blast intro: wait_invariant_step stop_invariant_step)
  qed
  then show ?thesis by simp
qed

lemma waiting_stop_can_return:
  assumes "reachable w net s" and "ui s = In_stop_wait"
  shows "\<exists>n\<le>exit_measure s. \<not> isRunning ((run_step w ^^ n) s)
           \<and> ui ((run_step w ^^ n) s) = In_stop_wait
           \<and> (step w)\<^sup>*\<^sup>* s ((run_step w ^^ n) s)"
proof (cases "isRunning s")
  case False
  then show ?thesis using assms(2) by (intro exI [of _ 0]) simp
next
  case True
  from reachable_wait_invariant [OF assms(1)] assms(2) True have "sentinel_pending s"
    by (simp add: wait_invariant_def)
  from worker_exits [OF this True, of w] obtain n
    where "n \<le> exit_measure s" "\<not> isRunning ((run_step w ^^ n) s)" by blast
  with assms(2) show ?thesis
    by (intro exI [of _ n]) (simp add: run_steps_ui run_steps_are_steps)
qed

lemma tor_pass: "probe_pass tor_world 0 tor_network = (3, [Some (''127.0.0.1'', 9150)])"
  by (simp add: tor_world_def tor_network_def GET_request_def tor_rejection_def is_tor_port_def
      is_tor_port_outcome_def is_tor_port_try_def probe_pass_def candidate_ports_def
      truthy_port_def Let_def)

lemma run_twice: "(run_step w ^^ 2) s = run_step w (run_step w s)"
  by (simp add: numeral_2_eq_2)

lemma started_detector_eq:
  "start (new_detector tor_network) =
     \<lparr> heap = [[]], stopQ = Some 0, thread = Running At_pass, ui = Ui_idle,
       returned = [Call_start], pending_kicks = 0, det_network = tor_network, probes = 0,
       events = [] \<rparr>"
  by (simp add: start_def start_assign_def start_super_def new_detector_def)

lemma waiting_detector_eq:
  "waiting_detector =
     \<lparr> heap = [[]], stopQ = Some 0, thread = Running (In_get 0), ui = Ui_idle,
       returned = [Call_start], pending_kicks = 0, det_network = tor_network, probes = 3,
       events = [Emitted (Some (''127.0.0.1'', 9150))] \<rparr>"
  by (simp add: waiting_detector_def run_twice started_detector_eq run_step_def log_event_def
      tor_pass)

lemma reachable_start: "reachable w net (start (new_detector net))"
proof -
  have "step w (new_detector net) (start_assign (new_detector net))"
    by (rule step.ui_start_assign) (simp add: new_detector_def)
  moreover have "step w (start_assign (new_detector net)) (start_super (start_assign (new_detector net)))"
    by (rule step.ui_start_super) (simp add: start_assign_def)
  ultimately show ?thesis
    unfolding reachable_def start_def by (meson rtranclp.rtrancl_into_rtrancl rtranclp.rtrancl_refl)
qed

lemma reachable_run_steps:
  assumes "reachable w net s"
  shows "reachable w net ((run_step w ^^ n) s)"
proof -
  from assms have "(step w)\<^sup>*\<^sup>* (new_detector net) s" by (simp add: reachable_def)
  from this run_steps_are_steps [of w s n]
  have "(step w)\<^sup>*\<^sup>* (new_detector net) ((run_step w ^^ n) s)" by (rule rtranclp_trans)
  then show ?thesis by (simp add: reachable_def)
qed

lemma reachable_stop_put:
  assumes "reachable w net s" and "ui s = Ui_idle" and "isRunning s"
  shows "reachable w net (stop_put (stop_test s))"
proof -
  from assms(2) have "step w s (stop_test s)" by (rule step.ui_stop_test)
  moreover from assms(3) have "ui (stop_test s) = In_stop_put" by (simp add: stop_test_def)
  then have "step w (stop_test s) (stop_put (stop_test s))" by (rule step.ui_stop_put)
  ultimately show ?thesis
    using assms(1) unfolding reachable_def by (meson rtranclp.rtrancl_into_rtrancl)
qed

lemma reachable_waiting_detector: "reachable tor_world tor_network waiting_detector"
  unfolding waiting_detector_def by (intro reachable_run_steps reachable_start)

text \<open>
  Claim C3. In every state that the detector can reach by any interleaving of the UI
  thread's calls of \<open>start\<close> and \<open>stop\<close>, of notifications and of the worker:
  \<open>stop\<close> on a running detector appends the sentinel \<open>None\<close> to the queue named by
  \<open>self.stopQ\<close> and then waits; an action of the running worker ends \<open>run\<close> exactly
  when it dequeues the sentinel; the caller leaves \<open>wait\<close> only by the return of
  \<open>wait\<close>, with the thread not running; whenever \<open>stop\<close> is the last call that
  returned, the thread is not running; and from a caller blocked in \<open>wait\<close> the worker
  reaches its exit within a bounded number of its own actions, so that \<open>stop\<close> can
  return.
\<close>

theorem stop_waits_for_worker:
  assumes "reachable w net s"
  shows "(isRunning s \<and> ui s = Ui_idle \<longrightarrow>
            (\<exists>q. stopQ s = Some q \<and> q < length (heap s)
                \<and> heap (stop_put (stop_test s)) = (heap s)[q := heap s ! q @ [None]]
                \<and> ui (stop_put (stop_test s)) = In_stop_wait))
       \<and> (isRunning s \<longrightarrow>
            (\<not> isRunning (run_step w s)
             \<longleftrightarrow> (\<exists>q rest. thread s = Running (In_get q) \<and> queue_at s q = None # rest)))
       \<and> (ui s = In_stop_wait \<longrightarrow>
            (\<forall>s'. step w s s' \<and> ui s' \<noteq> In_stop_wait \<longrightarrow> s' = stop_wait s \<and> \<not> isRunning s'))
       \<and> (ui s = Ui_idle \<and> returned s \<noteq> [] \<and> last (returned s) = Call_stop \<longrightarrow> \<not> isRunning s)
       \<and> (ui s = In_stop_wait \<longrightarrow>
            (\<exists>n\<le>exit_measure s. \<not> isRunning ((run_step w ^^ n) s)
                \<and> ui ((run_step w ^^ n) s) = In_stop_wait
                \<and> (step w)\<^sup>*\<^sup>* s ((run_step w ^^ n) s)))"
proof -
  note inv = reachable_stop_invariant [OF assms]
  have a: "isRunning s \<and> ui s = Ui_idle \<longrightarrow>
            (\<exists>q. stopQ s = Some q \<and> q < length (heap s)
                \<and> heap (stop_put (stop_test s)) = (heap s)[q := heap s ! q @ [None]]
                \<and> ui (stop_put (stop_test s)) = In_stop_wait)"
    using stop_enqueues_sentinel [OF inv] by blast
  have b: "isRunning s \<longrightarrow>
            (\<not> isRunning (run_step w s)
             \<longleftrightarrow> (\<exists>q rest. thread s = Running (In_get q) \<and> queue_at s q = None # rest))"
    using run_step_exits_iff [OF inv] by blast
  have c: "ui s = In_stop_wait \<longrightarrow>
            (\<forall>s'. step w s s' \<and> ui s' \<noteq> In_stop_wait \<longrightarrow> s' = stop_wait s \<and> \<not> isRunning s')"
  proof (intro impI allI)
    fix s'
    assume w: "ui s = In_stop_wait" and st: "step w s s' \<and> ui s' \<noteq> In_stop_wait"
    then have "step w s s'" and out: "ui s' \<noteq> In_stop_wait" by simp_all
    then show "s' = stop_wait s \<and> \<not> isRunning s'"
    proof (cases rule: step.cases)
      case ui_stop_wait
      then show ?thesis by (simp add: stop_wait_def isRunning_def)
    next
      case worker
      with w out show ?thesis by (simp add: run_step_frame)
    qed (use w out in \<open>auto simp: detector_defs split: if_splits option.splits\<close>)
  qed
  have d: "ui s = Ui_idle \<and> returned s \<noteq> [] \<and> last (returned s) = Call_stop \<longrightarrow> \<not> isRunning s"
    using inv by (simp add: stop_invariant_def)
  have e: "ui s = In_stop_wait \<longrightarrow>
            (\<exists>n\<le>exit_measure s. \<not> isRunning ((run_step w ^^ n) s)
                \<and> ui ((run_step w ^^ n) s) = In_stop_wait
                \<and> (step w)\<^sup>*\<^sup>* s ((run_step w ^^ n) s))"
    using waiting_stop_can_return [OF assms] by blast
  from a b c d e show ?thesis by (intro conjI)
qed

theorem stop_waits_for_worker_witness:
  "reachable tor_world tor_network (stop_put (stop_test waiting_detector))
   \<and> heap (stop_put (stop_test waiting_detector)) = [[None]]
   \<and> ui (stop_put (stop_test waiting_detector)) = In_stop_wait
   \<and> \<not> isRunning (run_step tor_world (stop_put (stop_test waiting_detector)))"
proof -
  let ?s = "stop_put (stop_test waiting_detector)"
  have run: "isRunning waiting_detector" and idle: "ui waiting_detector = Ui_idle"
    by (simp_all add: waiting_detector_eq isRunning_def)
  have r: "reachable tor_world tor_network ?s"
    by (rule reachable_stop_put [OF reachable_waiting_detector idle run])
  have s: "?s = \<lparr> heap = [[None]], stopQ = Some 0, thread = Running (In_get 0), ui = In_stop_wait,
       returned = [Call_start], pending_kicks = 0, det_network = tor_network, probes = 3,
       events = [Emitted (Some (''127.0.0.1'', 9150))] \<rparr>"
    by (simp add: waiting_detector_eq stop_put_def stop_test_def put_def isRunning_def)
  have h: "isRunning ?s" "\<exists>q rest. thread ?s = Running (In_get q) \<and> queue_at ?s q = None # rest"
    by (simp_all add: s isRunning_def queue_at_def)
  from stop_waits_for_worker [OF r] h have "\<not> isRunning (run_step tor_world ?s)" by blast
  with r show ?thesis by (simp add: s)
qed

lemma on_tor_port_changed_waiting:
  assumes "thread s = Running (In_get q)" and "stopQ s = Some q" and "q < length (heap s)"
    and "truthy_port (active_socks_port controller)"
  shows "on_tor_port_changed controller s = s\<lparr> heap := (heap s)[q := heap s ! q @ [Some ''kick'']] \<rparr>"
  using assms
  by (simp add: on_tor_port_changed_def on_tor_port_changed_test_def on_tor_port_changed_put_def
      put_def isRunning_def)

lemma kick_pass:
  assumes "thread s = Running (In_get q)" and s: "q < length (heap s)" "heap s ! q = Some k # r"
    "events s = es"
  shows "\<exists>sig. events ((run_step w ^^ 3) s) = es @ [Dequeued (Some k), Slept 250, Emitted sig]"
proof -
  let ?s1 = "run_step w s"
  have s1: "thread ?s1 = Running In_msleep" "events ?s1 = es @ [Dequeued (Some k)]"
    using assms(1) s by (simp_all add: run_step_def queue_at_def log_event_def)
  let ?s2 = "run_step w ?s1"
  have s2: "thread ?s2 = Running At_pass" "events ?s2 = es @ [Dequeued (Some k), Slept 250]"
    using s1 by (simp_all add: run_step_def log_event_def)
  from probe_ports_single [of w "probes ?s2" "candidate_ports (det_network ?s2)"]
  obtain sig where sig: "snd (probe_pass w (probes ?s2) (det_network ?s2)) = [sig]"
    by (auto simp: probe_pass_def)
  have "events (run_step w ?s2) = es @ [Dequeued (Some k), Slept 250, Emitted sig]"
    using s2 sig by (auto simp: run_step_def log_event_def split: prod.splits)
  then show ?thesis by (auto simp: numeral_3_eq_3)
qed

text \<open>
  The wake-up when \<open>self.stopQ\<close> still names the queue the worker waits on. Let the
  running worker wait in \<open>get\<close> on that queue, with the queue empty, and let a
  notification arrive while the controller's active SOCKS port is set. Then
  \<open>on_tor_port_changed\<close> puts the wake-up item \<open>'kick'\<close> into the queue, and in every
  interleaving that follows, the worker's log continues with the dequeuing of the item,
  the sleep of 250 ms and the signal of a new pass, in this order: neither the timeout
  of 10000 ms nor the return from \<open>run\<close> comes before the new pass. Three actions of
  the worker produce the new pass. A dequeued item other than the sentinel never ends
  \<open>run\<close>: it leads to the sleep. Durations are those the code asks of \<open>get\<close> and
  \<open>msleep\<close>.
\<close>

lemma kick_on_worker_queue:
  assumes "thread s = Running (In_get q)" and "stopQ s = Some q" and "q < length (heap s)"
    and "heap s ! q = []" and "truthy_port (active_socks_port controller)"
  shows "heap (on_tor_port_changed controller s) = (heap s)[q := [Some ''kick'']]
       \<and> (\<forall>s'. (step w)\<^sup>*\<^sup>* (on_tor_port_changed controller s) s' \<longrightarrow>
              (events s' = events s \<and> thread s' = Running (In_get q))
            \<or> (events s' = events s @ [Dequeued (Some ''kick'')] \<and> thread s' = Running In_msleep)
            \<or> (events s' = events s @ [Dequeued (Some ''kick''), Slept 250]
                \<and> thread s' = Running At_pass)
            \<or> (\<exists>sig more. events s'
                  = events s @ [Dequeued (Some ''kick''), Slept 250, Emitted sig] @ more))
       \<and> (\<exists>sig. events ((run_step w ^^ 3) (on_tor_port_changed controller s))
                  = events s @ [Dequeued (Some ''kick''), Slept 250, Emitted sig])
       \<and> (step w)\<^sup>*\<^sup>* (on_tor_port_changed controller s)
            ((run_step w ^^ 3) (on_tor_port_changed controller s))
       \<and> (\<forall>t q' k rest. thread t = Running (In_get q') \<and> queue_at t q' = Some k # rest
              \<longrightarrow> thread (run_step w t) = Running In_msleep)"
proof -
  let ?s1 = "on_tor_port_changed controller s"
  have eq: "?s1 = s\<lparr> heap := (heap s)[q := [Some ''kick'']] \<rparr>"
    using on_tor_port_changed_waiting [OF assms(1,2,3,5)] assms(4) by simp
  have k: "kicked (events s) ''kick'' q ?s1"
    using assms(1,3) by (simp add: eq kicked_def)
  have t1: "thread ?s1 = Running (In_get q)" using assms(1) by (simp add: eq)
  have a: "heap ?s1 = (heap s)[q := [Some ''kick'']]" by (simp add: eq)
  have b: "\<forall>s'. (step w)\<^sup>*\<^sup>* ?s1 s' \<longrightarrow>
              (events s' = events s \<and> thread s' = Running (In_get q))
            \<or> (events s' = events s @ [Dequeued (Some ''kick'')] \<and> thread s' = Running In_msleep)
            \<or> (events s' = events s @ [Dequeued (Some ''kick''), Slept 250]
                \<and> thread s' = Running At_pass)
            \<or> (\<exists>sig more. events s'
                  = events s @ [Dequeued (Some ''kick''), Slept 250, Emitted sig] @ more)"
  proof (intro allI impI)
    fix s'
    assume "(step w)\<^sup>*\<^sup>* ?s1 s'"
    from kicked_steps [OF this k] show "(events s' = events s \<and> thread s' = Running (In_get q))
            \<or> (events s' = events s @ [Dequeued (Some ''kick'')] \<and> thread s' = Running In_msleep)
            \<or> (events s' = events s @ [Dequeued (Some ''kick''), Slept 250]
                \<and> thread s' = Running At_pass)
            \<or> (\<exists>sig more. events s'
                  = events s @ [Dequeued (Some ''kick''), Slept 250, Emitted sig] @ more)"
      unfolding kicked_def by blast
  qed
  have c: "\<exists>sig. events ((run_step w ^^ 3) ?s1)
                  = events s @ [Dequeued (Some ''kick''), Slept 250, Emitted sig]"
    by (rule kick_pass [OF t1, where r = "[]"]) (use assms(3) in \<open>simp_all add: eq\<close>)
  have d: "(step w)\<^sup>*\<^sup>* ?s1 ((run_step w ^^ 3) ?s1)" by (rule run_steps_are_steps)
  have e: "\<forall>t q' k rest. thread t = Running (In_get q') \<and> queue_at t q' = Some k # rest
              \<longrightarrow> thread (run_step w t) = Running In_msleep"
    by (simp add: run_step_def)
  from a b c d e show ?thesis by (intro conjI)
qed

text \<open>
  \<open>start\<close> on a running detector creates no second worker: the state of the one
  thread, its log, its probe count, the network and the contents of every existing queue
  are unchanged. But it allocates a new empty queue and makes \<open>self.stopQ\<close> name it,
  so the sentinel of a following \<open>stop\<close> is put into the new queue.
\<close>

lemma start_on_running_detector:
  assumes "isRunning s"
  shows "thread (start s) = thread s
       \<and> events (start s) = events s
       \<and> probes (start s) = probes s
       \<and> det_network (start s) = det_network s
       \<and> pending_kicks (start s) = pending_kicks s
       \<and> heap (start s) = heap s @ [[]]
       \<and> (\<forall>q<length (heap s). queue_at (start s) q = queue_at s q)
       \<and> stopQ (start s) = Some (length (heap s))
       \<and> queue_at (start s) (length (heap s)) = []
       \<and> (stop_invariant s \<longrightarrow> stopQ (start s) \<noteq> stopQ s)
       \<and> heap (stop_put (stop_test (start s))) = heap s @ [[None]]
       \<and> returned (start s) = returned s @ [Call_start]
       \<and> ui (start s) = Ui_idle"
  using assms
  by (auto simp: start_def start_assign_def start_super_def isRunning_def queue_at_def nth_append
      stop_invariant_def stop_put_def stop_test_def put_def split: thread_state.splits)

text \<open>
  The sample detector after a second \<open>start\<close>, a state the UI thread can reach: the
  worker waits in \<open>get\<close> on queue 0 while \<open>self.stopQ\<close> names queue 1.
\<close>

lemma tor_pass_any: "probe_pass tor_world n tor_network = (n + 3, [Some (''127.0.0.1'', 9150)])"
  by (simp add: tor_world_def tor_network_def GET_request_def tor_rejection_def is_tor_port_def
      is_tor_port_outcome_def is_tor_port_try_def probe_pass_def candidate_ports_def
      truthy_port_def Let_def)

lemma restarted_detector_eq:
  "start waiting_detector =
     \<lparr> heap = [[], []], stopQ = Some 1, thread = Running (In_get 0), ui = Ui_idle,
       returned = [Call_start, Call_start], pending_kicks = 0, det_network = tor_network,
       probes = 3, events = [Emitted (Some (''127.0.0.1'', 9150))] \<rparr>"
  by (simp add: waiting_detector_eq start_def start_assign_def start_super_def)

lemma reachable_start_again:
  assumes "reachable w net s" and "ui s = Ui_idle"
  shows "reachable w net (start s)"
proof -
  from assms(2) have "step w s (start_assign s)" by (rule step.ui_start_assign)
  moreover have "step w (start_assign s) (start_super (start_assign s))"
    by (rule step.ui_start_super) (simp add: start_assign_def)
  ultimately show ?thesis
    using assms(1) unfolding reachable_def start_def by (meson rtranclp.rtrancl_into_rtrancl)
qed

lemma reachable_restarted_detector: "reachable tor_world tor_network (start waiting_detector)"
  by (rule reachable_start_again [OF reachable_waiting_detector]) (simp add: waiting_detector_eq)

lemma kicked_restarted_eq:
  "on_tor_port_changed active_controller (start waiting_detector) =
     \<lparr> heap = [[], [Some ''kick'']], stopQ = Some 1, thread = Running (In_get 0), ui = Ui_idle,
       returned = [Call_start, Call_start], pending_kicks = 0, det_network = tor_network,
       probes = 3, events = [Emitted (Some (''127.0.0.1'', 9150))] \<rparr>"
  by (simp add: restarted_detector_eq on_tor_port_changed_def on_tor_port_changed_test_def
      on_tor_port_changed_put_def put_def isRunning_def active_controller_def truthy_port_def)

lemma stopped_restarted_eq:
  "stop_put (stop_test (start waiting_detector)) =
     \<lparr> heap = [[], [None]], stopQ = Some 1, thread = Running (In_get 0), ui = In_stop_wait,
       returned = [Call_start, Call_start], pending_kicks = 0, det_network = tor_network,
       probes = 3, events = [Emitted (Some (''127.0.0.1'', 9150))] \<rparr>"
  by (simp add: restarted_detector_eq stop_put_def stop_test_def put_def isRunning_def)

lemma run_four:
  "(run_step w ^^ 4) s = run_step w (run_step w (run_step w (run_step w s)))"
  by (simp add: numeral_eq_Suc funpow_swap1)

lemma run_six:
  "(run_step w ^^ 6) s
     = run_step w (run_step w (run_step w (run_step w (run_step w (run_step w s)))))"
  by (simp add: numeral_eq_Suc funpow_swap1)

text \<open>
  Claim C4 does not hold of the code. Nothing keeps \<open>start\<close> from being called on a
  running detector, and \<open>start\<close> then makes \<open>self.stopQ\<close> name a new queue while
  the worker stays in \<open>get\<close> on the old one. A notification that arrives in that
  state, with the controller's active port set and the detector running and waiting,
  puts \<open>'kick'\<close> into the new queue. The worker does not see it: its next action is
  the timeout of 10000 ms, and only after the pass that follows the timeout does it read
  \<open>self.stopQ\<close> again, dequeue the item and sleep 250 ms. The state is reachable and
  the sample run is the one of the worker's own actions.
\<close>

theorem kick_missed_after_second_start:
  "reachable tor_world tor_network (start waiting_detector)
   \<and> thread (start waiting_detector) = Running (In_get 0)
   \<and> queue_at (start waiting_detector) 0 = []
   \<and> active_socks_port active_controller = Some 9999
   \<and> heap (on_tor_port_changed active_controller (start waiting_detector)) = [[], [Some ''kick'']]
   \<and> thread (on_tor_port_changed active_controller (start waiting_detector)) = Running (In_get 0)
   \<and> events (on_tor_port_changed active_controller (start waiting_detector))
       = [Emitted (Some (''127.0.0.1'', 9150))]
   \<and> events (run_step tor_world (on_tor_port_changed active_controller (start waiting_detector)))
       = [Emitted (Some (''127.0.0.1'', 9150)), Get_timeout 10000]
   \<and> events ((run_step tor_world ^^ 6) (on_tor_port_changed active_controller (start waiting_detector)))
       = [Emitted (Some (''127.0.0.1'', 9150)), Get_timeout 10000,
          Emitted (Some (''127.0.0.1'', 9150)), Dequeued (Some ''kick''), Slept 250,
          Emitted (Some (''127.0.0.1'', 9150))]"
proof -
  have a: "thread (start waiting_detector) = Running (In_get 0)"
    "queue_at (start waiting_detector) 0 = []"
    by (simp_all add: restarted_detector_eq queue_at_def)
  have b: "active_socks_port active_controller = Some 9999"
    by (simp add: active_controller_def)
  have c: "heap (on_tor_port_changed active_controller (start waiting_detector)) = [[], [Some ''kick'']]"
    "thread (on_tor_port_changed active_controller (start waiting_detector)) = Running (In_get 0)"
    "events (on_tor_port_changed active_controller (start waiting_detector))
       = [Emitted (Some (''127.0.0.1'', 9150))]"
    by (simp_all add: kicked_restarted_eq)
  have d: "events (run_step tor_world (on_tor_port_changed active_controller (start waiting_detector)))
       = [Emitted (Some (''127.0.0.1'', 9150)), Get_timeout 10000]"
    by (simp add: kicked_restarted_eq run_step_def queue_at_def log_event_def)
  have e: "events ((run_step tor_world ^^ 6) (on_tor_port_changed active_controller (start waiting_detector)))
       = [Emitted (Some (''127.0.0.1'', 9150)), Get_timeout 10000,
          Emitted (Some (''127.0.0.1'', 9150)), Dequeued (Some ''kick''), Slept 250,
          Emitted (Some (''127.0.0.1'', 9150))]"
    by (simp add: run_six kicked_restarted_eq run_step_def queue_at_def log_event_def tor_pass_any)
  from reachable_restarted_detector a b c d e show ?thesis by (intro conjI)
qed

text \<open>
  Claim C5 does not hold of the code: \<open>start\<close> on a running detector is not a no-op.
  It begins with \<open>self.stopQ = queue.Queue()\<close> without the test of \<open>isRunning\<close> that
  \<open>stop\<close> and \<open>on_tor_port_changed\<close> make, so the attribute names a new queue while
  the worker still waits in \<open>get\<close> on the old one. In the sample state the sentinel of
  a following \<open>stop\<close> lands in the new queue and the caller blocks in \<open>wait\<close>: the
  worker's next action is the timeout of 10000 ms, where without the second \<open>start\<close>
  it would have been the return from \<open>run\<close>; it finds the sentinel only after the
  timeout and one more pass.
\<close>

theorem start_while_running_replaces_queue:
  "isRunning waiting_detector
   \<and> stopQ waiting_detector = Some 0
   \<and> stopQ (start waiting_detector) = Some 1
   \<and> heap (stop_put (stop_test (start waiting_detector))) = [[], [None]]
   \<and> ui (stop_put (stop_test (start waiting_detector))) = In_stop_wait
   \<and> thread (start waiting_detector) = Running (In_get 0)
   \<and> thread (run_step tor_world (stop_put (stop_test waiting_detector))) = Finished
   \<and> thread (run_step tor_world (stop_put (stop_test (start waiting_detector)))) = Running At_pass
   \<and> events (run_step tor_world (stop_put (stop_test (start waiting_detector))))
       = [Emitted (Some (''127.0.0.1'', 9150)), Get_timeout 10000]
   \<and> events ((run_step tor_world ^^ 4) (stop_put (stop_test (start waiting_detector))))
       = [Emitted (Some (''127.0.0.1'', 9150)), Get_timeout 10000,
          Emitted (Some (''127.0.0.1'', 9150)), Dequeued None, Returned]"
proof -
  have a: "isRunning waiting_detector" "stopQ waiting_detector = Some 0"
    "thread (run_step tor_world (stop_put (stop_test waiting_detector))) = Finished"
    by (simp_all add: waiting_detector_eq stop_put_def stop_test_def put_def isRunning_def
        run_step_def queue_at_def log_event_def)
  have b: "stopQ (start waiting_detector) = Some 1"
    "thread (start waiting_detector) = Running (In_get 0)"
    by (simp_all add: restarted_detector_eq)
  have c: "heap (stop_put (stop_test (start waiting_detector))) = [[], [None]]"
    "ui (stop_put (stop_test (start waiting_detector))) = In_stop_wait"
    by (simp_all add: stopped_restarted_eq)
  have d: "thread (run_step tor_world (stop_put (stop_test (start waiting_detector)))) = Running At_pass"
    "events (run_step tor_world (stop_put (stop_test (start waiting_detector))))
       = [Emitted (Some (''127.0.0.1'', 9150)), Get_timeout 10000]"
    by (simp_all add: stopped_restarted_eq run_step_def queue_at_def log_event_def)
  have e: "events ((run_step tor_world ^^ 4) (stop_put (stop_test (start waiting_detector))))
       = [Emitted (Some (''127.0.0.1'', 9150)), Get_timeout 10000,
          Emitted (Some (''127.0.0.1'', 9150)), Dequeued None, Returned]"
    by (simp add: run_four stopped_restarted_eq run_step_def queue_at_def log_event_def tor_pass_any)
  from a b c d e show ?thesis by (intro conjI)
qed

end
